theory Spec2Isabelle
  imports Complex_Main
begin

section \<open>Data model\<close>

text \<open>
  The types \<open>GameSession\<close>, \<open>Slide\<close>, \<open>GameStructure\<close> and \<open>NewGameData\<close> are imported by the
  sources from \<open>@shared/types\<close>; their fields are the ones the sources read and write.
  A value a JavaScript \<open>throw\<close> can carry is either an \<open>Error\<close> object with a message or
  something else (the sources test \<open>error instanceof Error\<close>).
\<close>

datatype thrown = Error (message: string) | OtherThrown

datatype Status = Draft | Active | Completed

record TeamConfig =
  team_name :: string
  team_passcode :: string

record NewGameData =
  gd_name :: string
  gd_class_name :: "string option"
  gd_grade_level :: "string option"
  gd_game_version :: string
  num_teams :: int
  teams_config :: "TeamConfig list option"

text \<open>\<open>wizard_state\<close> holds a \<open>Partial<NewGameData>\<close>: every field may be absent.\<close>

record WizardState =
  ws_name :: "string option"
  ws_class_name :: "string option"
  ws_grade_level :: "string option"
  ws_game_version :: "string option"
  ws_num_teams :: "int option"
  ws_teams_config :: "TeamConfig list option"

record GameSession =
  session_id :: string
  session_name :: string
  host_id :: string
  status :: Status
  game_version :: string
  current_slide_index :: "int option"
  is_playing :: bool
  is_complete :: bool
  host_notes :: "string \<rightharpoonup> string"
  wizard_state :: "WizardState option"
  class_name :: "string option"
  grade_level :: "string option"

text \<open>
  A \<open>Partial<GameSessionInsert>\<close> object literal is the list of the fields it sets, in the
  order they are written; a field set twice keeps the later value.
\<close>

datatype SessionField =
    Set_status Status
  | Set_name string
  | Set_class_name "string option"
  | Set_grade_level "string option"
  | Set_game_version string
  | Set_current_slide_index "int option"
  | Set_is_playing bool
  | Set_is_complete bool
  | Set_host_notes "string \<rightharpoonup> string"
  | Set_wizard_state "WizardState option"

text \<open>
  Of a slide the controller reads its numeric \<open>id\<close>, its \<open>type\<close> and its optional
  \<open>interactive_data_key\<close>.
\<close>

record Slide =
  slide_id :: int
  slide_type :: string
  interactive_data_key :: "string option"

record GameStructure =
  slides :: "Slide list"

text \<open>
  The object handed to \<open>db.teams.create\<close>. The name is kept as its UTF-16 code units, since
  a synthesized name can hold a code unit that no \<open>char\<close> holds.
\<close>

record TeamInsert =
  ti_session_id :: string
  ti_name :: "nat list"
  ti_passcode :: string

text \<open>
  A decision row: its key fields and, as one opaque value, the rest of the row (selected
  options and the like), which no function here looks into.
\<close>

record TeamDecision =
  td_session_id :: string
  td_team_id :: string
  td_phase_id :: string
  td_payload :: string

text \<open>
  Everything outside the hooks and the manager: the tables of the store, the schedule of
  adapter failures still to come, the log of the calls made to the store and to the two
  slide processors handed to the controller, and the consequence-processor calls whose
  promise has not settled yet.
\<close>

record World =
  sessions :: "string \<rightharpoonup> GameSession"
  teams :: "TeamInsert list"
  decisions :: "TeamDecision list"
  faults :: "thrown option list"
  session_update_calls :: "(string \<times> SessionField list) list"
  team_create_calls :: "TeamInsert list"
  interactive_calls :: "Slide list"
  consequence_calls :: "Slide list"
  consequence_pending :: "Slide list"

text \<open>
  The state of \<open>useGameController\<close>: its \<open>useState\<close> cells and the set held by
  \<open>processedConsequenceSlidesRef\<close>.
\<close>

record HostAlert =
  title :: string
  alert_message :: string

record Controller =
  dbSession :: "GameSession option"
  currentHostAlertState :: "HostAlert option"
  allTeamsSubmittedState :: bool
  allTeamsAlertDismissed :: bool
  processedConsequenceSlides :: "int set"

section \<open>The session store (external collaborator)\<close>

fun apply_field :: "SessionField \<Rightarrow> GameSession \<Rightarrow> GameSession" where
  "apply_field (Set_status v) s = s\<lparr>status := v\<rparr>"
| "apply_field (Set_name v) s = s\<lparr>session_name := v\<rparr>"
| "apply_field (Set_class_name v) s = s\<lparr>class_name := v\<rparr>"
| "apply_field (Set_grade_level v) s = s\<lparr>grade_level := v\<rparr>"
| "apply_field (Set_game_version v) s = s\<lparr>game_version := v\<rparr>"
| "apply_field (Set_current_slide_index v) s = s\<lparr>current_slide_index := v\<rparr>"
| "apply_field (Set_is_playing v) s = s\<lparr>is_playing := v\<rparr>"
| "apply_field (Set_is_complete v) s = s\<lparr>is_complete := v\<rparr>"
| "apply_field (Set_host_notes v) s = s\<lparr>host_notes := v\<rparr>"
| "apply_field (Set_wizard_state v) s = s\<lparr>wizard_state := v\<rparr>"

definition apply_updates :: "SessionField list \<Rightarrow> GameSession \<Rightarrow> GameSession" where
  "apply_updates updates s = fold apply_field updates s"

text \<open>
  Modelled from the spec: the adapter failure of section 7 (\<open>AdapterFailure\<close>, the underlying
  store call failed). The module \<open>@shared/services/supabase\<close> is not among the sources. Every
  call of the store consumes the head of the schedule \<open>faults\<close>: \<open>Some e\<close> makes that call
  throw \<open>e\<close>, \<open>None\<close> or an exhausted schedule lets it proceed.
\<close>

definition next_fault :: "World \<Rightarrow> thrown option \<times> World" where
  "next_fault w =
     (case faults w of
        [] \<Rightarrow> (None, w)
      | f # fs \<Rightarrow> (f, w\<lparr>faults := fs\<rparr>))"

text \<open>
  Modelled from the spec: \<open>db.sessions.update\<close> of the missing module
  \<open>@shared/services/supabase\<close>, the Session Store contract
  \<open>update(id, partialFields) \<rightarrow> record | fails\<close> of section 6. The call is logged; it writes
  the given fields over the stored record and returns the new record, returns nothing when
  no record has that id, and throws on an adapter failure.
\<close>

definition db_sessions_update ::
  "string \<Rightarrow> SessionField list \<Rightarrow> World \<Rightarrow> (thrown + GameSession option) \<times> World" where
  "db_sessions_update sessionId updates w =
     (let w1 = w\<lparr>session_update_calls := session_update_calls w @ [(sessionId, updates)]\<rparr>;
          (f, w2) = next_fault w1
      in case f of
           Some e \<Rightarrow> (Inl e, w2)
         | None \<Rightarrow>
             (case sessions w2 sessionId of
                None \<Rightarrow> (Inr None, w2)
              | Some s \<Rightarrow>
                  (let s' = apply_updates updates s
                   in (Inr (Some s'), w2\<lparr>sessions := (sessions w2)(sessionId \<mapsto> s')\<rparr>))))"

text \<open>
  Modelled from the spec: \<open>formatSupabaseError\<close> of the missing module
  \<open>@shared/services/supabase\<close>, which derives a human-readable message from the adapter's
  error (section 7).
\<close>

definition formatSupabaseError :: "thrown \<Rightarrow> string" where
  "formatSupabaseError e = (case e of Error m \<Rightarrow> m | OtherThrown \<Rightarrow> ''Unknown error'')"

section \<open>GameSessionManager\<close>

definition updateSession ::
  "string \<Rightarrow> SessionField list \<Rightarrow> World \<Rightarrow> (thrown + GameSession) \<times> World" where
  "updateSession sessionId updates w =
     (if sessionId = [] \<or> sessionId = ''new''
      then (Inl (Error ''Cannot update session: Invalid session ID''), w)
      else
        (case db_sessions_update sessionId updates w of
           (Inl e, w') \<Rightarrow>
             (Inl (Error (''Failed to save session progress: '' @ formatSupabaseError e)), w')
         | (Inr None, w') \<Rightarrow>
             (Inl (Error (''Failed to save session progress: '' @
                formatSupabaseError
                  (Error (''Failed to update session with ID '' @ [CHR 0x27] @ sessionId @
                          [CHR 0x27] @ ''.'')))), w')
         | (Inr (Some s), w') \<Rightarrow> (Inr s, w')))"

definition resetSessionProgress :: "string \<Rightarrow> World \<Rightarrow> (thrown + GameSession) \<times> World" where
  "resetSessionProgress sessionId w =
     updateSession sessionId
       [Set_current_slide_index (Some 0), Set_is_playing False, Set_is_complete False,
        Set_host_notes Map.empty, Set_status Active, Set_wizard_state None] w"

section \<open>useGameController\<close>

text \<open>
  The hook's arguments \<open>gameStructure\<close> and \<open>processInteractiveSlide\<close> are parameters of
  the callbacks; a processor returns \<open>None\<close> when its promise resolves and \<open>Some e\<close> when it
  rejects with \<open>e\<close>. A navigation callback awaits the finalizer and the store; it is one
  step here, on the state it was rendered with, since navigation calls do not overlap
  (section 5 of the specification). The consequence effect, whose overlap with later
  evaluations is the point of its guard, is split at its \<open>await\<close> instead.
\<close>

definition ALL_SUBMIT_ALERT_TITLE :: string where
  "ALL_SUBMIT_ALERT_TITLE = ''All Teams Have Submitted!''"

definition ALL_SUBMIT_ALERT_MESSAGE :: string where
  "ALL_SUBMIT_ALERT_MESSAGE =
     ''All teams have submitted their decisions for this challenge. Click OK to proceed to the next slide, then click Next to proceed.''"

text \<open>\<open>error instanceof Error ? error.message : fallback\<close>\<close>

definition message_or :: "thrown \<Rightarrow> string \<Rightarrow> string" where
  "message_or e fallback = (case e of Error m \<Rightarrow> m | OtherThrown \<Rightarrow> fallback)"

text \<open>\<open>xs[i] ?? null\<close>: reading a JavaScript array outside its range gives \<open>undefined\<close>.\<close>

definition array_get :: "'a list \<Rightarrow> int \<Rightarrow> 'a option" where
  "array_get xs i = (if 0 \<le> i \<and> i < int (length xs) then Some (xs ! nat i) else None)"

definition startsWith :: "string \<Rightarrow> string \<Rightarrow> bool" where
  "startsWith s p = (take (length p) s = p)"

text \<open>Truthiness of an optional string: \<open>undefined\<close> and the empty string are falsy.\<close>

definition truthy :: "string option \<Rightarrow> bool" where
  "truthy k = (case k of None \<Rightarrow> False | Some s \<Rightarrow> s \<noteq> [])"

definition currentSlideIndex :: "Controller \<Rightarrow> int option" where
  "currentSlideIndex c = (case dbSession c of None \<Rightarrow> None | Some s \<Rightarrow> current_slide_index s)"

definition currentSlideData :: "GameStructure option \<Rightarrow> Controller \<Rightarrow> Slide option" where
  "currentSlideData gameStructure c =
     (case (gameStructure, currentSlideIndex c) of
        (Some g, Some i) \<Rightarrow> array_get (slides g) i
      | _ \<Rightarrow> None)"

text \<open>\<open>gameStructure?.slides.length ?? d\<close>\<close>

definition slides_length_or :: "GameStructure option \<Rightarrow> int \<Rightarrow> int" where
  "slides_length_or gameStructure d =
     (case gameStructure of None \<Rightarrow> d | Some g \<Rightarrow> int (length (slides g)))"

text \<open>\<open>setDbSession(prev => prev ? {...prev, current_slide_index: i} : null)\<close>\<close>

definition setDbSession_index :: "int \<Rightarrow> Controller \<Rightarrow> Controller" where
  "setDbSession_index i c =
     c\<lparr>dbSession := map_option (\<lambda>prev. prev\<lparr>current_slide_index := Some i\<rparr>) (dbSession c)\<rparr>"

definition navigation_error :: "thrown \<Rightarrow> string \<Rightarrow> Controller \<Rightarrow> Controller" where
  "navigation_error e fallback c =
     c\<lparr>currentHostAlertState :=
         Some \<lparr>title = ''Navigation Error'', alert_message = message_or e fallback\<rparr>\<rparr>"

text \<open>
  The \<open>try\<close> block shared by the three navigation callbacks: persist the index, then patch
  the cached session and clear the dismissal flag; a failure of the persistence raises the
  alert and skips the rest.
\<close>

definition persist_index ::
  "string \<Rightarrow> int \<Rightarrow> string \<Rightarrow> Controller \<times> World \<Rightarrow> Controller \<times> World" where
  "persist_index sid i fallback cw =
     (case updateSession sid [Set_current_slide_index (Some i)] (snd cw) of
        (Inl e, w') \<Rightarrow> (navigation_error e fallback (fst cw), w')
      | (Inr _, w') \<Rightarrow> ((setDbSession_index i (fst cw))\<lparr>allTeamsAlertDismissed := False\<rparr>, w'))"

definition nextSlide ::
  "GameStructure option \<Rightarrow> (Slide \<Rightarrow> thrown option) \<Rightarrow> Controller \<times> World \<Rightarrow> Controller \<times> World" where
  "nextSlide gameStructure processInteractiveSlide cw =
     (case (dbSession (fst cw), currentSlideIndex (fst cw), currentSlideData gameStructure (fst cw)) of
        (Some session, Some idx, Some slide) \<Rightarrow>
          (let navigate = (\<lambda>cw1.
                 let nextIndex = idx + 1;
                     maxIndex = slides_length_or gameStructure 1 - 1
                 in if nextIndex \<le> maxIndex
                    then persist_index (session_id session) nextIndex ''Failed to advance slide.'' cw1
                    else cw1)
           in if truthy (interactive_data_key slide) \<and> startsWith (slide_type slide) ''interactive_''
              then
                (let w1 = (snd cw)\<lparr>interactive_calls := interactive_calls (snd cw) @ [slide]\<rparr>
                 in case processInteractiveSlide slide of
                      Some e \<Rightarrow>
                        ((fst cw)\<lparr>currentHostAlertState :=
                            Some \<lparr>title = ''Processing Error'',
                                  alert_message = ''Failed to process slide: '' @ message_or e ''Unknown error''\<rparr>\<rparr>,
                         w1)
                    | None \<Rightarrow> navigate (fst cw, w1))
              else navigate cw)
      | _ \<Rightarrow> cw)"

definition previousSlide :: "Controller \<times> World \<Rightarrow> Controller \<times> World" where
  "previousSlide cw =
     (case (dbSession (fst cw), currentSlideIndex (fst cw)) of
        (Some session, Some idx) \<Rightarrow>
          persist_index (session_id session) (max (idx - 1) 0) ''Failed to go to previous slide.'' cw
      | _ \<Rightarrow> cw)"

definition selectSlideByIndex ::
  "GameStructure option \<Rightarrow> int \<Rightarrow> Controller \<times> World \<Rightarrow> Controller \<times> World" where
  "selectSlideByIndex gameStructure targetIndex cw =
     (case dbSession (fst cw) of
        None \<Rightarrow> cw
      | Some session \<Rightarrow>
          if targetIndex < 0 \<or> targetIndex \<ge> slides_length_or gameStructure 0 then cw
          else persist_index (session_id session) targetIndex ''Failed to jump to slide.'' cw)"

definition clearHostAlert :: "GameStructure option \<Rightarrow> Controller \<times> World \<Rightarrow> Controller \<times> World" where
  "clearHostAlert gameStructure cw =
     (case (currentHostAlertState (fst cw), dbSession (fst cw)) of
        (Some alert, Some session) \<Rightarrow>
          (let isAllSubmitAlert = (title alert = ALL_SUBMIT_ALERT_TITLE);
               c1 = (fst cw)\<lparr>currentHostAlertState := None\<rparr>
           in if isAllSubmitAlert
              then
                (let c2 = c1\<lparr>allTeamsAlertDismissed := True\<rparr>;
                     nextSlideIndex =
                       min ((case current_slide_index session of None \<Rightarrow> 0 | Some i \<Rightarrow> i) + 1)
                           (slides_length_or gameStructure 1 - 1)
                 in case updateSession (session_id session)
                           [Set_current_slide_index (Some nextSlideIndex)] (snd cw) of
                      (Inl e, w') \<Rightarrow> (navigation_error e ''Failed to change slide.'' c2, w')
                    | (Inr _, w') \<Rightarrow> (setDbSession_index nextSlideIndex c2, w'))
              else (c1, snd cw))
      | _ \<Rightarrow> cw)"

subsection \<open>Consequence auto-processing\<close>

text \<open>
  The effect that resets the processed set: it clears the set when the identity of the
  session handed to the hook differs from the identity of the cached one
  (\<open>initialDbSession?.id !== dbSession?.id\<close>).
\<close>

definition sessionChangedEffect :: "GameSession option \<Rightarrow> Controller \<Rightarrow> Controller" where
  "sessionChangedEffect initialDbSession c =
     (if map_option session_id initialDbSession \<noteq> map_option session_id (dbSession c)
      then c\<lparr>processedConsequenceSlides := {}\<rparr>
      else c)"

text \<open>
  The effect that adopts the session handed to the hook while none is cached
  (\<open>if (initialDbSession && !dbSession) setDbSession(initialDbSession)\<close>).
\<close>

definition sessionInitEffect :: "GameSession option \<Rightarrow> Controller \<Rightarrow> Controller" where
  "sessionInitEffect initialDbSession c =
     (case (initialDbSession, dbSession c) of
        (Some s, None) \<Rightarrow> c\<lparr>dbSession := Some s\<rparr>
      | _ \<Rightarrow> c)"

text \<open>
  \<open>processConsequenceSlideAuto\<close> is asynchronous. Everything up to the \<open>await\<close> runs
  synchronously when the effect is evaluated: the check of the processed set, the mark and
  the start of the call of the external processor, which is logged in \<open>consequence_calls\<close>
  and stays in \<open>consequence_pending\<close> until its promise settles.
\<close>

definition processConsequenceSlideAuto_start ::
  "GameStructure option \<Rightarrow> Slide option \<Rightarrow> Controller \<times> World \<Rightarrow> Controller \<times> World" where
  "processConsequenceSlideAuto_start gameStructure slideData cw =
     (case (slideData, gameStructure) of
        (Some slide, Some _) \<Rightarrow>
          if slide_type slide = ''consequence_reveal''
          then
            if slide_id slide \<in> processedConsequenceSlides (fst cw) then cw
            else
              ((fst cw)\<lparr>processedConsequenceSlides :=
                   insert (slide_id slide) (processedConsequenceSlides (fst cw))\<rparr>,
               (snd cw)\<lparr>consequence_calls := consequence_calls (snd cw) @ [slide],
                        consequence_pending := consequence_pending (snd cw) @ [slide]\<rparr>)
          else cw
      | _ \<Rightarrow> cw)"

text \<open>
  The rest of \<open>processConsequenceSlideAuto\<close>, run when the promise of the processor settles:
  nothing more on success (\<open>None\<close>); on a failure the \<open>catch\<close> block removes the mark and
  raises the alert.
\<close>

definition processConsequenceSlideAuto_settled ::
  "Slide \<Rightarrow> thrown option \<Rightarrow> Controller \<Rightarrow> Controller" where
  "processConsequenceSlideAuto_settled slide outcome c =
     (case outcome of
        None \<Rightarrow> c
      | Some e \<Rightarrow>
          c\<lparr>processedConsequenceSlides := processedConsequenceSlides c - {slide_id slide},
            currentHostAlertState :=
              Some \<lparr>title = ''Processing Error'',
                    alert_message =
                      ''Failed to process consequence slide: '' @ message_or e ''Unknown error''\<rparr>\<rparr>)"

subsection \<open>The controller as an event-driven machine\<close>

text \<open>
  What can happen to a mounted controller, in any order: the consequence effect is
  evaluated for the current slide, the promise of a started processor call settles, the
  host navigates or dismisses the alert, or the hook is rendered with a session
  \<open>initialDbSession\<close>, which runs the two session effects on the state of that render (the
  reset effect does not touch the cached session, so the other one still sees it as rendered).
\<close>

datatype Event =
    Evaluate
  | Settled Slide "thrown option"
  | NextSlide
  | PreviousSlide
  | SelectSlide int
  | ClearAlert
  | SessionChanged "GameSession option"

fun step ::
  "GameStructure option \<Rightarrow> (Slide \<Rightarrow> thrown option) \<Rightarrow> Event \<Rightarrow> Controller \<times> World \<Rightarrow> Controller \<times> World" where
  "step gs pis Evaluate cw = processConsequenceSlideAuto_start gs (currentSlideData gs (fst cw)) cw"
| "step gs pis (Settled slide outcome) cw =
     (if slide \<in> set (consequence_pending (snd cw))
      then (processConsequenceSlideAuto_settled slide outcome (fst cw),
            (snd cw)\<lparr>consequence_pending := remove1 slide (consequence_pending (snd cw))\<rparr>)
      else cw)"
| "step gs pis NextSlide cw = nextSlide gs pis cw"
| "step gs pis PreviousSlide cw = previousSlide cw"
| "step gs pis (SelectSlide i) cw = selectSlideByIndex gs i cw"
| "step gs pis ClearAlert cw = clearHostAlert gs cw"
| "step gs pis (SessionChanged initialDbSession) cw =
     (sessionInitEffect initialDbSession (sessionChangedEffect initialDbSession (fst cw)), snd cw)"

definition run ::
  "GameStructure option \<Rightarrow> (Slide \<Rightarrow> thrown option) \<Rightarrow> Event list \<Rightarrow> Controller \<times> World \<Rightarrow> Controller \<times> World" where
  "run gs pis evs cw = fold (step gs pis) evs cw"

text \<open>How often the external consequence processor has been called for a slide identifier.\<close>

definition calls_for :: "int \<Rightarrow> Controller \<times> World \<Rightarrow> nat" where
  "calls_for i cw = length (filter (\<lambda>s. slide_id s = i) (consequence_calls (snd cw)))"

fun is_failure_for :: "int \<Rightarrow> Event \<Rightarrow> bool" where
  "is_failure_for i (Settled slide (Some e)) = (slide_id slide = i)"
| "is_failure_for i _ = False"

text \<open>
  The identity of the cached session. An event stays within the session load when it is
  not a render with a session of another identity, the one case in which the reset effect
  clears the processed set.
\<close>

definition session_identity :: "Controller \<times> World \<Rightarrow> string option" where
  "session_identity cw = map_option session_id (dbSession (fst cw))"

fun keeps_session :: "string option \<Rightarrow> Event \<Rightarrow> bool" where
  "keeps_session sid (SessionChanged initialDbSession) =
     (map_option session_id initialDbSession = sid)"
| "keeps_session sid _ = True"

definition failures_for :: "int \<Rightarrow> Event list \<Rightarrow> nat" where
  "failures_for i evs = length (filter (is_failure_for i) evs)"

definition same_session_load :: "Controller \<times> World \<Rightarrow> Event list \<Rightarrow> bool" where
  "same_session_load cw evs = list_all (keeps_session (session_identity cw)) evs"

text \<open>A freshly loaded controller: nothing processed, no processor call made or in flight.\<close>

definition fresh_load :: "Controller \<times> World \<Rightarrow> bool" where
  "fresh_load cw =
     (processedConsequenceSlides (fst cw) = {} \<and> consequence_calls (snd cw) = [] \<and>
      consequence_pending (snd cw) = [])"

subsection \<open>What a navigation may change\<close>

text \<open>Two sessions (or two absent sessions) that differ at most in \<open>current_slide_index\<close>.\<close>

definition only_index_changed :: "GameSession option \<Rightarrow> GameSession option \<Rightarrow> bool" where
  "only_index_changed a b =
     (case (a, b) of
        (None, None) \<Rightarrow> True
      | (Some s, Some s') \<Rightarrow> s' = s\<lparr>current_slide_index := current_slide_index s'\<rparr>
      | _ \<Rightarrow> False)"

fun is_index_only :: "string \<times> SessionField list \<Rightarrow> bool" where
  "is_index_only (sid, [Set_current_slide_index i]) = True"
| "is_index_only _ = False"

text \<open>
  The frame of a navigation: the cached session and every stored session differ from before
  at most in \<open>current_slide_index\<close>, and every payload newly handed to the store sets
  \<open>current_slide_index\<close> and nothing else.
\<close>

definition navigation_frame :: "Controller \<times> World \<Rightarrow> Controller \<times> World \<Rightarrow> bool" where
  "navigation_frame cw cw' =
     (only_index_changed (dbSession (fst cw)) (dbSession (fst cw')) \<and>
      (\<forall>sid. only_index_changed (sessions (snd cw) sid) (sessions (snd cw') sid)) \<and>
      take (length (session_update_calls (snd cw))) (session_update_calls (snd cw')) =
        session_update_calls (snd cw) \<and>
      list_all is_index_only
        (drop (length (session_update_calls (snd cw))) (session_update_calls (snd cw'))))"

section \<open>Sample data\<close>

definition demo_session :: GameSession where
  "demo_session =
     \<lparr>session_id = ''s1'', session_name = ''Demo'', host_id = ''h1'', status = Completed,
      game_version = ''2.0_dd'', current_slide_index = Some 1, is_playing = True,
      is_complete = True, host_notes = [''1'' \<mapsto> ''note''], wizard_state = None,
      class_name = None, grade_level = None\<rparr>"

definition demo_structure :: GameStructure where
  "demo_structure =
     \<lparr>slides =
        [\<lparr>slide_id = 10, slide_type = ''video'', interactive_data_key = None\<rparr>,
         \<lparr>slide_id = 11, slide_type = ''interactive_invest'',
          interactive_data_key = Some ''rd1-invest''\<rparr>,
         \<lparr>slide_id = 12, slide_type = ''consequence_reveal'', interactive_data_key = None\<rparr>]\<rparr>"

definition demo_world :: World where
  "demo_world =
     \<lparr>sessions = [''s1'' \<mapsto> demo_session], teams = [], decisions = [], faults = [],
      session_update_calls = [], team_create_calls = [], interactive_calls = [],
      consequence_calls = [], consequence_pending = []\<rparr>"

definition demo_controller :: Controller where
  "demo_controller =
     \<lparr>dbSession = Some demo_session, currentHostAlertState = None,
      allTeamsSubmittedState = False, allTeamsAlertDismissed = True,
      processedConsequenceSlides = {}\<rparr>"

definition demo_controller_last :: Controller where
  "demo_controller_last =
     demo_controller\<lparr>dbSession := Some (demo_session\<lparr>current_slide_index := Some 2\<rparr>)\<rparr>"

definition demo_world_last :: World where
  "demo_world_last =
     demo_world\<lparr>sessions := [''s1'' \<mapsto> demo_session\<lparr>current_slide_index := Some 2\<rparr>]\<rparr>"

subsection \<open>The consequence part of the state\<close>

text \<open>
  The part of the state the consequence auto-processing works on, and the invariant that
  links the calls in flight to the processed set: every call in flight belongs to a marked
  identifier, and no identifier has two calls in flight.
\<close>

definition consequence_state :: "Controller \<times> World \<Rightarrow> int set \<times> Slide list \<times> Slide list" where
  "consequence_state cw =
     (processedConsequenceSlides (fst cw), consequence_calls (snd cw), consequence_pending (snd cw))"

definition pending_marked :: "Controller \<times> World \<Rightarrow> bool" where
  "pending_marked cw =
     (slide_id ` set (consequence_pending (snd cw)) \<subseteq> processedConsequenceSlides (fst cw) \<and>
      distinct (map slide_id (consequence_pending (snd cw))))"

definition mark_count :: "int \<Rightarrow> Controller \<times> World \<Rightarrow> nat" where
  "mark_count i cw = (if i \<in> processedConsequenceSlides (fst cw) then 1 else 0)"

definition demo_consequence_slide :: Slide where
  "demo_consequence_slide =
     \<lparr>slide_id = 12, slide_type = ''consequence_reveal'', interactive_data_key = None\<rparr>"

section \<open>GameSessionManager: finalizing a draft\<close>

text \<open>
  \<open>String.prototype.trim\<close> on the characters a \<open>char\<close> can hold: tab, line feed, vertical
  tab, form feed, carriage return, space and the no-break space.
\<close>

definition is_space :: "char \<Rightarrow> bool" where
  "is_space c = (c \<in> {CHR 0x09, CHR 0x0A, CHR 0x0B, CHR 0x0C, CHR 0x0D, CHR 0x20, CHR 0xA0})"

definition trim :: "string \<Rightarrow> string" where
  "trim s = rev (dropWhile is_space (rev (dropWhile is_space s)))"

text \<open>\<open>Number.prototype.toString\<close> on an integer: its decimal digits, with a sign if negative.\<close>

definition digit_char :: "nat \<Rightarrow> char" where
  "digit_char d = ''0123456789'' ! d"

fun nat_toString :: "nat \<Rightarrow> string" where
  "nat_toString n = (if n < 10 then [digit_char n] else nat_toString (n div 10) @ [digit_char (n mod 10)])"

definition int_toString :: "int \<Rightarrow> string" where
  "int_toString i = (if i < 0 then CHR ''-'' # nat_toString (nat (- i)) else nat_toString (nat i))"

definition is_digit :: "char \<Rightarrow> bool" where
  "is_digit c = (c \<in> set ''0123456789'')"

text \<open>
  Modelled from the spec: \<open>db.teams.create\<close> of the missing module
  \<open>@shared/services/supabase\<close>, the contract
  \<open>create({sessionId, name, passcode}) \<rightarrow> record | fails\<close> of section 6. The call is logged; it
  adds the team, or throws on an adapter failure.
\<close>

definition db_teams_create :: "TeamInsert \<Rightarrow> World \<Rightarrow> thrown option \<times> World" where
  "db_teams_create t w =
     (let w1 = w\<lparr>team_create_calls := team_create_calls w @ [t]\<rparr>;
          (f, w2) = next_fault w1
      in case f of
           Some e \<Rightarrow> (Some e, w2)
         | None \<Rightarrow> (None, w2\<lparr>teams := teams w2 @ [t]\<rparr>))"

text \<open>
  \<open>await Promise.all(list.map(t => db.teams.create(t)))\<close>: \<open>map\<close> starts every call, in the
  order of the list, whether or not an earlier one fails; the \<open>await\<close> throws if one of them
  failed.
\<close>

fun create_all :: "TeamInsert list \<Rightarrow> World \<Rightarrow> thrown option \<times> World" where
  "create_all [] w = (None, w)"
| "create_all (t # ts) w =
     (case db_teams_create t w of
        (r, w1) \<Rightarrow>
          (case create_all ts w1 of
             (rs, w2) \<Rightarrow> ((case r of Some e \<Rightarrow> Some e | None \<Rightarrow> rs), w2)))"

text \<open>\<open>s || null\<close> for an optional string.\<close>

definition or_null :: "string option \<Rightarrow> string option" where
  "or_null s = (if truthy s then s else None)"

text \<open>The UTF-16 code units of a string whose characters are all below 256.\<close>

definition code_units :: "string \<Rightarrow> nat list" where
  "code_units s = map of_char s"

text \<open>\<open>String.fromCharCode\<close> of one number: the code unit it denotes (\<open>ToUint16\<close>).\<close>

definition fromCharCode :: "nat \<Rightarrow> nat list" where
  "fromCharCode n = [n mod 65536]"

text \<open>
  The arithmetic of JavaScript numbers (IEEE 754 binary64, round to nearest, ties to even)
  on reals. \<open>binade x\<close> is the exponent of \<open>x\<close>, held at \<open>-1022\<close> in the subnormal range;
  \<open>ulp x\<close> is the spacing of the doubles around \<open>x\<close>; \<open>round64 x\<close> is the double nearest to
  \<open>x\<close>, and a real is a double when rounding leaves it as it is. A sum or a product of two
  doubles is the rounded exact result. Magnitudes of \<open>2 ^ 1024\<close> and more, which round to
  infinity, do not occur below: the numbers rounded here are between 0 and 10000.
\<close>

definition round_half_even :: "real \<Rightarrow> int" where
  "round_half_even x =
     (if x - of_int \<lfloor>x\<rfloor> < 1 / 2 then \<lfloor>x\<rfloor>
      else if 1 / 2 < x - of_int \<lfloor>x\<rfloor> then \<lfloor>x\<rfloor> + 1
      else if even \<lfloor>x\<rfloor> then \<lfloor>x\<rfloor> else \<lfloor>x\<rfloor> + 1)"

definition binade :: "real \<Rightarrow> int" where
  "binade x = max \<lfloor>log 2 \<bar>x\<bar>\<rfloor> (- 1022)"

definition ulp :: "real \<Rightarrow> real" where
  "ulp x = 2 powr of_int (binade x - 52)"

definition round64 :: "real \<Rightarrow> real" where
  "round64 x = (if x = 0 then 0 else of_int (round_half_even (x / ulp x)) * ulp x)"

definition is_double :: "real \<Rightarrow> bool" where
  "is_double x = (round64 x = x)"

text \<open>
  The team synthesized for index \<open>i\<close>. \<open>random i\<close> is the double \<open>Math.random()\<close> returns for
  that team, in \<open>[0, 1)\<close>; the product and the sum are rounded as the doubles they are, and
  \<open>Math.floor\<close> of a double is exact.
\<close>

definition default_team :: "string \<Rightarrow> (nat \<Rightarrow> real) \<Rightarrow> nat \<Rightarrow> TeamInsert" where
  "default_team sessionId random i =
     \<lparr>ti_session_id = sessionId,
      ti_name = code_units ''Team '' @ fromCharCode (65 + i),
      ti_passcode = int_toString \<lfloor>round64 (1000 + round64 (random i * 9000))\<rfloor>\<rparr>"

text \<open>
  \<open>today\<close> is what \<open>new Date().toLocaleDateString()\<close> returns, \<open>random\<close> the values of
  \<open>Math.random()\<close>.
\<close>

definition finalizeDraftSession ::
  "string \<Rightarrow> (nat \<Rightarrow> real) \<Rightarrow> string \<Rightarrow> NewGameData \<Rightarrow> World \<Rightarrow> (thrown + GameSession) \<times> World" where
  "finalizeDraftSession today random sessionId finalGameData w =
     (let failed = (\<lambda>e. Inl (Error (''Failed to finalize game session: '' @ formatSupabaseError e)))
      in case updateSession sessionId
                [Set_status Active,
                 Set_name (if trim (gd_name finalGameData) \<noteq> [] then trim (gd_name finalGameData)
                           else ''Game Session - '' @ today),
                 Set_class_name (or_null (map_option trim (gd_class_name finalGameData))),
                 Set_grade_level (or_null (gd_grade_level finalGameData)),
                 Set_game_version (gd_game_version finalGameData),
                 Set_wizard_state None] w of
           (Inl e, w1) \<Rightarrow> (failed e, w1)
         | (Inr updatedSession, w1) \<Rightarrow>
             (let teamsToCreate = (case teams_config finalGameData of None \<Rightarrow> [] | Some ts \<Rightarrow> ts)
              in if length teamsToCreate > 0
                 then
                   (case create_all
                           (map (\<lambda>teamConfig.
                                   \<lparr>ti_session_id = sessionId,
                                    ti_name = code_units (team_name teamConfig),
                                    ti_passcode = team_passcode teamConfig\<rparr>) teamsToCreate) w1 of
                      (Some e, w2) \<Rightarrow> (failed e, w2)
                    | (None, w2) \<Rightarrow> (Inr updatedSession, w2))
                 else if num_teams finalGameData > 0
                 then
                   (case create_all
                           (map (default_team sessionId random)
                              [0 ..< nat (num_teams finalGameData)]) w1 of
                      (Some e, w2) \<Rightarrow> (failed e, w2)
                    | (None, w2) \<Rightarrow> (Inr updatedSession, w2))
                 else (Inr updatedSession, w1)))"

section \<open>useTeamDataManager\<close>

record TeamRoundData =
  rd_team_id :: string
  rd_round_number :: int
  rd_kpis :: "(string \<times> int) list"

record TeamData =
  teamDecisions :: "string \<rightharpoonup> (string \<rightharpoonup> TeamDecision)"
  teamRoundData :: "string \<rightharpoonup> (int \<rightharpoonup> TeamRoundData)"
  isLoadingDecisions :: bool
  error_state :: "string option"

text \<open>Reading a two-level projection at a (team, phase) or (team, round) key.\<close>

definition lookup2 :: "('a \<rightharpoonup> ('b \<rightharpoonup> 'c)) \<Rightarrow> 'a \<Rightarrow> 'b \<Rightarrow> 'c option" where
  "lookup2 m t k = (case m t of None \<Rightarrow> None | Some r \<Rightarrow> r k)"

text \<open>
  Modelled from the spec: \<open>db.decisions.getBySession\<close> of the missing module
  \<open>@shared/services/supabase\<close>. It returns the decision rows of the session, or throws on
  an adapter failure.
\<close>

definition db_decisions_getBySession :: "string \<Rightarrow> World \<Rightarrow> (thrown + TeamDecision list) \<times> World" where
  "db_decisions_getBySession sessionId w =
     (case next_fault w of
        (Some e, w1) \<Rightarrow> (Inl e, w1)
      | (None, w1) \<Rightarrow> (Inr (filter (\<lambda>d. td_session_id d = sessionId) (decisions w1)), w1))"

text \<open>
  Modelled from the spec: \<open>db.decisions.delete\<close> of the missing module
  \<open>@shared/services/supabase\<close>. The delete is scoped by phase (section 4.3): it removes the
  rows of that session, team and phase and no other, or throws on an adapter failure.
\<close>

definition db_decisions_delete :: "string \<Rightarrow> string \<Rightarrow> string \<Rightarrow> World \<Rightarrow> thrown option \<times> World" where
  "db_decisions_delete sessionId teamId phaseId w =
     (case next_fault w of
        (Some e, w1) \<Rightarrow> (Some e, w1)
      | (None, w1) \<Rightarrow>
          (None, w1\<lparr>decisions :=
             filter (\<lambda>d. \<not> (td_session_id d = sessionId \<and> td_team_id d = teamId \<and>
                               td_phase_id d = phaseId)) (decisions w1)\<rparr>))"

text \<open>The body of the \<open>forEach\<close> that files a fetched row under its team and phase.\<close>

definition file_decision ::
  "TeamDecision \<Rightarrow> (string \<rightharpoonup> (string \<rightharpoonup> TeamDecision)) \<Rightarrow> (string \<rightharpoonup> (string \<rightharpoonup> TeamDecision))" where
  "file_decision decision structured =
     structured(td_team_id decision \<mapsto>
       (case structured (td_team_id decision) of None \<Rightarrow> Map.empty | Some phases \<Rightarrow> phases)
         (td_phase_id decision \<mapsto> decision))"

definition fetchTeamDecisionsForSession :: "string \<Rightarrow> TeamData \<times> World \<Rightarrow> TeamData \<times> World" where
  "fetchTeamDecisionsForSession sessionId sw =
     (if sessionId = [] \<or> sessionId = ''new''
      then ((fst sw)\<lparr>teamDecisions := Map.empty\<rparr>, snd sw)
      else
        (case db_decisions_getBySession sessionId (snd sw) of
           (Inr data, w1) \<Rightarrow>
             ((fst sw)\<lparr>error_state := None,
                       teamDecisions := fold file_decision data Map.empty,
                       isLoadingDecisions := False\<rparr>, w1)
         | (Inl err, w1) \<Rightarrow>
             ((fst sw)\<lparr>error_state := Some (''Failed to load team decisions: '' @ formatSupabaseError err),
                       teamDecisions := Map.empty,
                       isLoadingDecisions := False\<rparr>, w1)))"

text \<open>
  The state update of \<open>resetTeamDecisionInDb\<close> between the delete and the reload. The deep
  clone through JSON is the identity on rows that came from the store as JSON.
\<close>

definition removeDecisionLocal ::
  "string \<Rightarrow> string \<Rightarrow> (string \<rightharpoonup> (string \<rightharpoonup> TeamDecision)) \<Rightarrow> (string \<rightharpoonup> (string \<rightharpoonup> TeamDecision))" where
  "removeDecisionLocal teamId phaseId prev =
     (case prev teamId of
        None \<Rightarrow> prev
      | Some phases \<Rightarrow>
          (case phases phaseId of
             None \<Rightarrow> prev
           | Some _ \<Rightarrow>
               (if dom (phases(phaseId := None)) = {} then prev(teamId := None)
                else prev(teamId \<mapsto> phases(phaseId := None)))))"

definition resetTeamDecisionInDb ::
  "string \<Rightarrow> string \<Rightarrow> string \<Rightarrow> TeamData \<times> World \<Rightarrow> thrown option \<times> TeamData \<times> World" where
  "resetTeamDecisionInDb sessionId teamId phaseId sw =
     (if sessionId = [] \<or> teamId = [] \<or> phaseId = []
      then (Some (Error ''Missing session, team, or phase ID for reset.''), sw)
      else
        (case db_decisions_delete sessionId teamId phaseId (snd sw) of
           (Some e, w1) \<Rightarrow>
             (Some (Error (''Failed to reset decision: '' @ formatSupabaseError e)), fst sw, w1)
         | (None, w1) \<Rightarrow>
             (None,
              fetchTeamDecisionsForSession sessionId
                ((fst sw)\<lparr>teamDecisions := removeDecisionLocal teamId phaseId (teamDecisions (fst sw))\<rparr>,
                 w1))))"

text \<open>
  The store answers the next \<open>n\<close> calls without an adapter failure.
\<close>

definition store_healthy :: "nat \<Rightarrow> World \<Rightarrow> bool" where
  "store_healthy n w = list_all (\<lambda>f. f = None) (take n (faults w))"

text \<open>
  The decision rows the store holds for a session, filed by team and phase the way
  \<open>fetchTeamDecisionsForSession\<close> files the rows it is given.
\<close>

definition stored_projection :: "string \<Rightarrow> World \<Rightarrow> (string \<rightharpoonup> (string \<rightharpoonup> TeamDecision))" where
  "stored_projection sessionId w =
     fold file_decision (filter (\<lambda>d. td_session_id d = sessionId) (decisions w)) Map.empty"

text \<open>No team of a projection has an entry without phases.\<close>

definition no_empty_entry :: "('a \<rightharpoonup> ('b \<rightharpoonup> 'c)) \<Rightarrow> bool" where
  "no_empty_entry m = (\<forall>t r. m t = Some r \<longrightarrow> r \<noteq> Map.empty)"

text \<open>
  A change of the table \<open>team_round_data\<close> as the feed delivers it: an insert or an update
  carries the new row, a delete what is known of the old one.
\<close>

datatype RoundDataChange =
    INSERT TeamRoundData
  | UPDATE TeamRoundData
  | DELETE "string option" "int option"

definition upsertRoundData ::
  "TeamRoundData \<Rightarrow> (string \<rightharpoonup> (int \<rightharpoonup> TeamRoundData)) \<Rightarrow> (string \<rightharpoonup> (int \<rightharpoonup> TeamRoundData))" where
  "upsertRoundData newKpiData updated =
     updated(rd_team_id newKpiData \<mapsto>
       (case updated (rd_team_id newKpiData) of None \<Rightarrow> Map.empty | Some rounds \<Rightarrow> rounds)
         (rd_round_number newKpiData \<mapsto> newKpiData))"

fun onRoundDataChange ::
  "RoundDataChange \<Rightarrow> (string \<rightharpoonup> (int \<rightharpoonup> TeamRoundData)) \<Rightarrow> (string \<rightharpoonup> (int \<rightharpoonup> TeamRoundData))" where
  "onRoundDataChange (INSERT newKpiData) prev = upsertRoundData newKpiData prev"
| "onRoundDataChange (UPDATE newKpiData) prev = upsertRoundData newKpiData prev"
| "onRoundDataChange (DELETE old_team_id old_round_number) prev =
     (case (old_team_id, old_round_number) of
        (Some team, Some round_no) \<Rightarrow>
          (if team \<noteq> [] \<and> round_no \<noteq> 0
           then
             (case prev team of
                None \<Rightarrow> prev
              | Some rounds \<Rightarrow>
                  (if dom (rounds(round_no := None)) = {} then prev(team := None)
                   else prev(team \<mapsto> rounds(round_no := None))))
           else prev)
      | _ \<Rightarrow> prev)"

text \<open>The (team, round) slot an insert or update is about.\<close>

fun upsert_key :: "RoundDataChange \<Rightarrow> (string \<times> int) option" where
  "upsert_key (INSERT n) = Some (rd_team_id n, rd_round_number n)"
| "upsert_key (UPDATE n) = Some (rd_team_id n, rd_round_number n)"
| "upsert_key (DELETE t r) = None"

fun upsert_row :: "RoundDataChange \<Rightarrow> TeamRoundData option" where
  "upsert_row (INSERT n) = Some n"
| "upsert_row (UPDATE n) = Some n"
| "upsert_row (DELETE t r) = None"

definition demo_round1 :: TeamRoundData where
  "demo_round1 = \<lparr>rd_team_id = ''T'', rd_round_number = 1, rd_kpis = [(''capacity'', 5000)]\<rparr>"

definition demo_round2 :: TeamRoundData where
  "demo_round2 = \<lparr>rd_team_id = ''T'', rd_round_number = 2, rd_kpis = [(''capacity'', 6000)]\<rparr>"

definition demo_game_data :: NewGameData where
  "demo_game_data =
     \<lparr>gd_name = ''  Period 3  '', gd_class_name = Some '' '', gd_grade_level = None,
      gd_game_version = ''2.0_dd'', num_teams = 3, teams_config = None\<rparr>"

definition demo_random :: "nat \<Rightarrow> real" where
  "demo_random i =
     (if i = 0 then 0 else if i = 1 then 1 / 2 else 2001599834386887 / 2 ^ 54)"

definition demo_decision_invest :: TeamDecision where
  "demo_decision_invest =
     \<lparr>td_session_id = ''s1'', td_team_id = ''t1'', td_phase_id = ''rd1-invest'', td_payload = ''A,B''\<rparr>"

definition demo_decision_immediate :: TeamDecision where
  "demo_decision_immediate =
     \<lparr>td_session_id = ''s1'', td_team_id = ''t1'', td_phase_id = ''rd1-invest-immediate'',
      td_payload = ''C''\<rparr>"

definition demo_team_data :: TeamData where
  "demo_team_data =
     \<lparr>teamDecisions =
        [''t1'' \<mapsto> [''rd1-invest'' \<mapsto> demo_decision_invest,
                    ''rd1-invest-immediate'' \<mapsto> demo_decision_immediate]],
      teamRoundData = Map.empty, isLoadingDecisions = False, error_state = None\<rparr>"

definition demo_world_reload_fails :: World where
  "demo_world_reload_fails =
     demo_world\<lparr>decisions := [demo_decision_invest, demo_decision_immediate],
                faults := [None, Some (Error ''offline'')]\<rparr>"

text \<open>A store that holds both decisions of the team and answers every call.\<close>

definition demo_world_decisions :: World where
  "demo_world_decisions =
     demo_world\<lparr>decisions := [demo_decision_invest, demo_decision_immediate]\<rparr>"

text \<open>
  A store from which the immediate purchase has already been removed by another writer, while
  the projection of \<open>demo_team_data\<close> still shows it.
\<close>

definition demo_world_stale :: World where
  "demo_world_stale = demo_world\<lparr>decisions := [demo_decision_invest]\<rparr>"

section \<open>Navigation: rejected jumps\<close>

text \<open>
  C9. A jump to an index below zero or at or beyond the number of slides is rejected:
  \<open>selectSlideByIndex\<close> returns the controller and the outside world exactly as they were,
  so no persistence call is made (the log of store calls is part of the world) and the cached
  session, with its \<open>current_slide_index\<close>, is unchanged.
\<close>

theorem selectSlideByIndex_rejects_out_of_range:
  "targetIndex < 0 \<or> targetIndex \<ge> slides_length_or gameStructure 0 \<Longrightarrow>
   selectSlideByIndex gameStructure targetIndex (c, w) = (c, w)"
  by (auto simp: selectSlideByIndex_def split: option.splits)

theorem selectSlideByIndex_rejects_witness:
  "selectSlideByIndex (Some demo_structure) (- 1) (demo_controller, demo_world) =
     (demo_controller, demo_world)
   \<and> selectSlideByIndex (Some demo_structure) 3 (demo_controller, demo_world) =
     (demo_controller, demo_world)"
proof -
  have below: "(- 1 :: int) < 0 \<or> - 1 \<ge> slides_length_or (Some demo_structure) 0"
    by simp
  have beyond: "(3 :: int) < 0 \<or> 3 \<ge> slides_length_or (Some demo_structure) 0"
    by (simp add: slides_length_or_def demo_structure_def)
  from selectSlideByIndex_rejects_out_of_range [OF below, of demo_controller demo_world]
       selectSlideByIndex_rejects_out_of_range [OF beyond, of demo_controller demo_world]
  show ?thesis by (rule conjI)
qed

section \<open>Navigation: a failing finalizer blocks the advance\<close>

lemma demo_current:
  "currentSlideData (Some demo_structure) demo_controller =
     Some \<lparr>slide_id = 11, slide_type = ''interactive_invest'',
           interactive_data_key = Some ''rd1-invest''\<rparr>"
  by (simp add: currentSlideData_def currentSlideIndex_def demo_controller_def
      demo_session_def demo_structure_def array_get_def)

text \<open>
  C2. When the current slide is interactive (its type starts with \<open>interactive_\<close> and it
  carries a decision key) and the interactive-slide finalizer fails, \<open>nextSlide\<close> aborts:
  the cached session, the stored sessions and the log of store calls are as before, so
  \<open>current_slide_index\<close> has not moved, and the host alert \<open>Processing Error\<close> is raised.
\<close>

theorem nextSlide_finalizer_failure_aborts:
  assumes "currentSlideData gameStructure c = Some slide"
    and "truthy (interactive_data_key slide)"
    and "startsWith (slide_type slide) ''interactive_''"
    and "processInteractiveSlide slide = Some e"
  shows "dbSession (fst (nextSlide gameStructure processInteractiveSlide (c, w))) = dbSession c
       \<and> sessions (snd (nextSlide gameStructure processInteractiveSlide (c, w))) = sessions w
       \<and> session_update_calls (snd (nextSlide gameStructure processInteractiveSlide (c, w))) =
           session_update_calls w
       \<and> currentHostAlertState (fst (nextSlide gameStructure processInteractiveSlide (c, w))) =
           Some \<lparr>title = ''Processing Error'',
                 alert_message = ''Failed to process slide: '' @ message_or e ''Unknown error''\<rparr>"
  using assms
  by (auto simp: nextSlide_def currentSlideData_def currentSlideIndex_def split: option.splits)

theorem nextSlide_finalizer_failure_witness:
  "dbSession (fst (nextSlide (Some demo_structure) (\<lambda>_. Some (Error ''boom''))
       (demo_controller, demo_world))) = Some demo_session
   \<and> session_update_calls (snd (nextSlide (Some demo_structure) (\<lambda>_. Some (Error ''boom''))
       (demo_controller, demo_world))) = []
   \<and> currentHostAlertState (fst (nextSlide (Some demo_structure) (\<lambda>_. Some (Error ''boom''))
       (demo_controller, demo_world))) =
       Some \<lparr>title = ''Processing Error'', alert_message = ''Failed to process slide: boom''\<rparr>"
proof -
  let ?slide = "\<lparr>slide_id = 11, slide_type = ''interactive_invest'',
                 interactive_data_key = Some ''rd1-invest''\<rparr>"
  have key: "truthy (interactive_data_key ?slide)" by (simp add: truthy_def)
  have kind: "startsWith (slide_type ?slide) ''interactive_''" by (simp add: startsWith_def)
  have fails: "(\<lambda>_. Some (Error ''boom'')) ?slide = Some (Error ''boom'')" by simp
  from nextSlide_finalizer_failure_aborts [OF demo_current key kind fails, of demo_world]
  show ?thesis by (simp add: message_or_def demo_controller_def demo_world_def)
qed

section \<open>The store call behind every navigation\<close>

lemma updateSession_world:
  assumes "updateSession sid upd w = (r, w')"
  shows "consequence_calls w' = consequence_calls w"
    and "consequence_pending w' = consequence_pending w"
    and "teams w' = teams w"
    and "decisions w' = decisions w"
    and "team_create_calls w' = team_create_calls w"
    and "interactive_calls w' = interactive_calls w"
    and "session_update_calls w' = session_update_calls w \<or>
         session_update_calls w' = session_update_calls w @ [(sid, upd)]"
    and "sessions w' x = sessions w x \<or>
         (\<exists>s. sessions w x = Some s \<and> sessions w' x = Some (apply_updates upd s))"
  using assms
  by (auto simp: updateSession_def db_sessions_update_def next_fault_def Let_def
      split: if_splits list.splits option.splits prod.splits sum.splits)

lemma updateSession_ok:
  assumes "sid \<noteq> []" "sid \<noteq> ''new''" "sessions w sid = Some s" "faults w = [] \<or> hd (faults w) = None"
  shows "updateSession sid upd w =
           (Inr (apply_updates upd s),
            w\<lparr>session_update_calls := session_update_calls w @ [(sid, upd)],
              faults := tl (faults w),
              sessions := (sessions w)(sid \<mapsto> apply_updates upd s)\<rparr>)"
  using assms
  by (auto simp: updateSession_def db_sessions_update_def next_fault_def Let_def
      split: if_splits list.splits option.splits prod.splits sum.splits)

lemma only_index_changed_refl: "only_index_changed a a"
  by (simp add: only_index_changed_def split: option.splits)

lemma only_index_changed_set:
  "only_index_changed (Some s) (Some (apply_updates [Set_current_slide_index i] s))"
  by (simp add: only_index_changed_def apply_updates_def)

lemma updateSession_navigation_frame:
  assumes "updateSession sid [Set_current_slide_index i] w = (r, w')"
    and "only_index_changed (dbSession c) (dbSession c')"
  shows "navigation_frame (c, w) (c', w')"
proof -
  have s: "only_index_changed (sessions w x) (sessions w' x)" for x
    using updateSession_world(8)[OF assms(1), of x]
    by (auto simp: only_index_changed_refl only_index_changed_set)
  show ?thesis
    using updateSession_world(7)[OF assms(1)] assms(2) s
    unfolding navigation_frame_def by auto
qed

lemma navigation_frame_refl: "navigation_frame cw cw"
  by (simp add: navigation_frame_def only_index_changed_refl)

lemma only_index_changed_setDb:
  "only_index_changed (dbSession c) (dbSession (setDbSession_index i c))"
  by (simp add: only_index_changed_def setDbSession_index_def split: option.splits)

lemma persist_index_frame: "navigation_frame (c, w) (persist_index sid i fb (c, w))"
proof (cases "updateSession sid [Set_current_slide_index (Some i)] w")
  case (Pair r w')
  show ?thesis
  proof (cases r)
    case (Inl e)
    with Pair show ?thesis
      using updateSession_navigation_frame[OF Pair, of c "navigation_error e fb c"]
      by (simp add: persist_index_def navigation_error_def only_index_changed_refl)
  next
    case (Inr s)
    with Pair show ?thesis
      using updateSession_navigation_frame[OF Pair, of c "(setDbSession_index i c)\<lparr>allTeamsAlertDismissed := False\<rparr>"]
        only_index_changed_setDb[of c i]
      by (simp add: persist_index_def setDbSession_index_def)
  qed
qed

lemma navigation_frame_from:
  "navigation_frame (c1, w1) r \<Longrightarrow> dbSession c = dbSession c1 \<Longrightarrow> sessions w = sessions w1 \<Longrightarrow>
   session_update_calls w = session_update_calls w1 \<Longrightarrow> navigation_frame (c, w) r"
  by (simp add: navigation_frame_def)

lemma navigation_frame_same:
  "dbSession c' = dbSession c \<Longrightarrow> sessions w' = sessions w \<Longrightarrow>
   session_update_calls w' = session_update_calls w \<Longrightarrow> navigation_frame (c, w) (c', w')"
  by (simp add: navigation_frame_def only_index_changed_refl)

lemma nextSlide_frame: "navigation_frame (c, w) (nextSlide gs pis (c, w))"
  by (auto simp: nextSlide_def Let_def navigation_frame_refl persist_index_frame
      intro!: navigation_frame_same navigation_frame_from[OF persist_index_frame]
      split: option.splits)

lemma previousSlide_frame: "navigation_frame (c, w) (previousSlide (c, w))"
  by (auto simp: previousSlide_def navigation_frame_refl persist_index_frame split: option.splits)

lemma selectSlideByIndex_frame: "navigation_frame (c, w) (selectSlideByIndex gs i (c, w))"
  by (auto simp: selectSlideByIndex_def navigation_frame_refl persist_index_frame split: option.splits)

lemma clearHostAlert_frame: "navigation_frame (c, w) (clearHostAlert gs (c, w))"
proof (cases "currentHostAlertState c")
  case None
  then show ?thesis by (simp add: clearHostAlert_def navigation_frame_refl)
next
  case (Some alert)
  show ?thesis
  proof (cases "dbSession c")
    case None
    with Some show ?thesis by (simp add: clearHostAlert_def navigation_frame_refl)
  next
    case (Some session)
    note sess = this
    obtain n where n: "n = min ((case current_slide_index session of None \<Rightarrow> 0 | Some i \<Rightarrow> i) + 1)
                           (slides_length_or gs 1 - 1)" by simp
    obtain r w' where u: "updateSession (session_id session) [Set_current_slide_index (Some n)] w = (r, w')"
      by (cases "updateSession (session_id session) [Set_current_slide_index (Some n)] w") auto
    show ?thesis
    proof (cases "title alert = ALL_SUBMIT_ALERT_TITLE")
      case False
      with \<open>currentHostAlertState c = Some alert\<close> sess show ?thesis
        by (auto simp: clearHostAlert_def Let_def intro!: navigation_frame_same)
    next
      case True
      show ?thesis
      proof (cases r)
        case (Inl e)
        have "navigation_frame (c, w)
                (navigation_error e ''Failed to change slide.''
                   (c\<lparr>currentHostAlertState := None, allTeamsAlertDismissed := True\<rparr>), w')"
          by (rule updateSession_navigation_frame[OF u]) (simp add: navigation_error_def only_index_changed_refl)
        with True Inl u n \<open>currentHostAlertState c = Some alert\<close> sess show ?thesis
          by (simp add: clearHostAlert_def Let_def)
      next
        case (Inr s)
        have "navigation_frame (c, w)
                (setDbSession_index n
                   (c\<lparr>currentHostAlertState := None, allTeamsAlertDismissed := True\<rparr>), w')"
          by (rule updateSession_navigation_frame[OF u])
             (simp add: setDbSession_index_def only_index_changed_def sess)
        with True Inr u n \<open>currentHostAlertState c = Some alert\<close> sess show ?thesis
          by (simp add: clearHostAlert_def Let_def)
      qed
    qed
  qed
qed

lemma demo_nextSlide:
  "nextSlide (Some demo_structure) (\<lambda>_. None) (demo_controller, demo_world) =
     (demo_controller\<lparr>dbSession := Some (demo_session\<lparr>current_slide_index := Some 2\<rparr>),
                      allTeamsAlertDismissed := False\<rparr>,
      demo_world\<lparr>sessions := [''s1'' \<mapsto> demo_session\<lparr>current_slide_index := Some 2\<rparr>],
                 session_update_calls := [(''s1'', [Set_current_slide_index (Some 2)])],
                 interactive_calls := [\<lparr>slide_id = 11, slide_type = ''interactive_invest'',
                                        interactive_data_key = Some ''rd1-invest''\<rparr>]\<rparr>)"
  by (simp add: nextSlide_def currentSlideData_def array_get_def truthy_def startsWith_def Let_def persist_index_def
      updateSession_def db_sessions_update_def next_fault_def apply_updates_def
      setDbSession_index_def slides_length_or_def currentSlideIndex_def
      demo_controller_def demo_world_def demo_session_def demo_structure_def)

lemma demo_nextSlide_last:
  "nextSlide (Some demo_structure) pis (demo_controller_last, demo_world_last) =
     (demo_controller_last, demo_world_last)"
  by (simp add: nextSlide_def truthy_def startsWith_def Let_def 
      slides_length_or_def currentSlideIndex_def currentSlideData_def array_get_def
      demo_controller_last_def demo_controller_def demo_session_def demo_structure_def)

section \<open>Navigation: the advance\<close>

text \<open>
  C7, as stated, fails at the last slide. With the session on the last slide (a slide that
  needs no finalization) and the alert-dismissal flag set, \<open>nextSlide\<close> takes the branch
  "Already at last slide": the flag is still set afterwards and no store call was made.
\<close>

theorem nextSlide_at_last_slide_counterexample:
  "currentSlideData (Some demo_structure) demo_controller_last =
     Some \<lparr>slide_id = 12, slide_type = ''consequence_reveal'', interactive_data_key = None\<rparr>
   \<and> allTeamsAlertDismissed (fst (nextSlide (Some demo_structure) (\<lambda>_. None)
        (demo_controller_last, demo_world_last)))
   \<and> session_update_calls (snd (nextSlide (Some demo_structure) (\<lambda>_. None)
        (demo_controller_last, demo_world_last))) = []"
  unfolding demo_nextSlide_last
  by (simp add: currentSlideData_def currentSlideIndex_def array_get_def
      demo_controller_last_def demo_world_last_def demo_controller_def demo_world_def demo_structure_def)

text \<open>
  C7, amended. For an advance with a current slide that needs no interactive finalization
  or whose finalization succeeds: when the current slide is not the last one and the store
  call succeeds, the cached index and the stored index are the old index plus one, the one
  store call made carries that index, and the alert-dismissal flag is cleared; when the
  session is already at the last slide, the controller (index and flag included) is left
  as it was and no store call is made.
\<close>

theorem nextSlide_advances_unless_last:
  assumes "dbSession c = Some session"
    and "current_slide_index session = Some idx"
    and "currentSlideData gs c = Some slide"
    and "\<not> (truthy (interactive_data_key slide) \<and> startsWith (slide_type slide) ''interactive_'')
         \<or> pis slide = None"
  shows "(idx + 1 \<le> slides_length_or gs 1 - 1 \<and> session_id session \<noteq> [] \<and> session_id session \<noteq> ''new''
          \<and> sessions w (session_id session) = Some stored \<and> (faults w = [] \<or> hd (faults w) = None)
          \<longrightarrow> dbSession (fst (nextSlide gs pis (c, w))) = Some (session\<lparr>current_slide_index := Some (idx + 1)\<rparr>)
            \<and> sessions (snd (nextSlide gs pis (c, w))) (session_id session) =
                Some (stored\<lparr>current_slide_index := Some (idx + 1)\<rparr>)
            \<and> session_update_calls (snd (nextSlide gs pis (c, w))) =
                session_update_calls w @ [(session_id session, [Set_current_slide_index (Some (idx + 1))])]
            \<and> \<not> allTeamsAlertDismissed (fst (nextSlide gs pis (c, w))))
       \<and> (\<not> idx + 1 \<le> slides_length_or gs 1 - 1
          \<longrightarrow> fst (nextSlide gs pis (c, w)) = c
            \<and> sessions (snd (nextSlide gs pis (c, w))) = sessions w
            \<and> session_update_calls (snd (nextSlide gs pis (c, w))) = session_update_calls w)"
proof -
  let ?w1 = "w\<lparr>interactive_calls := interactive_calls w @ [slide]\<rparr>"
  have idx: "currentSlideIndex c = Some idx"
    using assms(1,2) by (simp add: currentSlideIndex_def)
  have ok: "updateSession (session_id session) upd w0 =
           (Inr (apply_updates upd stored),
            w0\<lparr>session_update_calls := session_update_calls w0 @ [(session_id session, upd)],
              faults := tl (faults w0),
              sessions := (sessions w0)(session_id session \<mapsto> apply_updates upd stored)\<rparr>)"
    if "session_id session \<noteq> []" "session_id session \<noteq> ''new''"
      "sessions w0 (session_id session) = Some stored" "faults w0 = [] \<or> hd (faults w0) = None"
    for upd w0
    using that by (rule updateSession_ok)
  show ?thesis
    using assms idx ok[of w] ok[of ?w1] 
    by (auto simp: nextSlide_def Let_def persist_index_def setDbSession_index_def apply_updates_def)
qed

theorem nextSlide_advances_unless_last_witness:
  "dbSession (fst (nextSlide (Some demo_structure) (\<lambda>_. None) (demo_controller, demo_world))) =
     Some (demo_session\<lparr>current_slide_index := Some 2\<rparr>)
   \<and> \<not> allTeamsAlertDismissed
         (fst (nextSlide (Some demo_structure) (\<lambda>_. None) (demo_controller, demo_world)))
   \<and> fst (nextSlide (Some demo_structure) (\<lambda>_. None) (demo_controller_last, demo_world_last)) =
       demo_controller_last"
proof -
  let ?last = "demo_session\<lparr>current_slide_index := Some 2\<rparr>"
  let ?slide12 = "\<lparr>slide_id = 12, slide_type = ''consequence_reveal'', interactive_data_key = None\<rparr>"
  have s1: "dbSession demo_controller = Some demo_session" by (simp add: demo_controller_def)
  have i1: "current_slide_index demo_session = Some 1" by (simp add: demo_session_def)
  have f1: "\<not> (truthy (interactive_data_key \<lparr>slide_id = 11, slide_type = ''interactive_invest'',
                 interactive_data_key = Some ''rd1-invest''\<rparr>) \<and>
               startsWith (slide_type \<lparr>slide_id = 11, slide_type = ''interactive_invest'',
                 interactive_data_key = Some ''rd1-invest''\<rparr>) ''interactive_'')
            \<or> (\<lambda>_. None :: thrown option) \<lparr>slide_id = 11, slide_type = ''interactive_invest'',
                 interactive_data_key = Some ''rd1-invest''\<rparr> = None" by simp
  have a1: "1 + 1 \<le> slides_length_or (Some demo_structure) 1 - 1 \<and> session_id demo_session \<noteq> []
            \<and> session_id demo_session \<noteq> ''new''
            \<and> sessions demo_world (session_id demo_session) = Some demo_session
            \<and> (faults demo_world = [] \<or> hd (faults demo_world) = None)"
    by (simp add: slides_length_or_def demo_structure_def demo_session_def demo_world_def)
  have s2: "dbSession demo_controller_last = Some ?last"
    by (simp add: demo_controller_last_def)
  have i2: "current_slide_index ?last = Some 2" by simp
  have c2: "currentSlideData (Some demo_structure) demo_controller_last = Some ?slide12"
    by (simp add: currentSlideData_def currentSlideIndex_def array_get_def
        demo_controller_last_def demo_structure_def)
  have f2: "\<not> (truthy (interactive_data_key ?slide12) \<and>
               startsWith (slide_type ?slide12) ''interactive_'')
            \<or> (\<lambda>_. None :: thrown option) ?slide12 = None" by simp
  have a2: "\<not> 2 + 1 \<le> slides_length_or (Some demo_structure) 1 - 1"
    by (simp add: slides_length_or_def demo_structure_def)
  from nextSlide_advances_unless_last [OF s1 i1 demo_current f1, of demo_world demo_session] a1
       nextSlide_advances_unless_last [OF s2 i2 c2 f2, of demo_world_last demo_session] a2
  show ?thesis by simp
qed

section \<open>Navigation: only the index moves\<close>

text \<open>
  C10. Each navigation operation (\<open>nextSlide\<close>, \<open>previousSlide\<close>, \<open>selectSlideByIndex\<close> and
  the advance done by \<open>clearHostAlert\<close>) changes at most \<open>current_slide_index\<close>: the cached
  session and every stored session keep all their other fields, and every payload the
  operation hands to the store sets \<open>current_slide_index\<close> and no other field.
\<close>

theorem navigation_changes_only_index:
  "navigation_frame cw (nextSlide gs pis cw)
   \<and> navigation_frame cw (previousSlide cw)
   \<and> navigation_frame cw (selectSlideByIndex gs i cw)
   \<and> navigation_frame cw (clearHostAlert gs cw)"
  using nextSlide_frame[of "fst cw" "snd cw"] previousSlide_frame[of "fst cw" "snd cw"]
    selectSlideByIndex_frame[of "fst cw" "snd cw"] clearHostAlert_frame[of "fst cw" "snd cw"]
  by simp

theorem navigation_changes_only_index_witness:
  "navigation_frame (demo_controller, demo_world)
     (nextSlide (Some demo_structure) (\<lambda>_. None) (demo_controller, demo_world))
   \<and> dbSession (fst (nextSlide (Some demo_structure) (\<lambda>_. None) (demo_controller, demo_world))) =
       Some (demo_session\<lparr>current_slide_index := Some 2\<rparr>)
   \<and> session_update_calls (snd (nextSlide (Some demo_structure) (\<lambda>_. None) (demo_controller, demo_world))) =
       [(''s1'', [Set_current_slide_index (Some 2)])]"
  using navigation_changes_only_index
          [of "(demo_controller, demo_world)" "Some demo_structure" "\<lambda>_. None" 0]
  by (simp add: demo_nextSlide)

section \<open>Consequence auto-processing: at most once per session load\<close>

lemma persist_index_consequence:
  "consequence_state (persist_index sid i fb cw) = consequence_state cw"
proof (cases "updateSession sid [Set_current_slide_index (Some i)] (snd cw)")
  case (Pair r w')
  from updateSession_world(1,2)[OF Pair] Pair show ?thesis
    by (cases r)
       (simp_all add: persist_index_def consequence_state_def navigation_error_def
          setDbSession_index_def)
qed

lemma nextSlide_consequence: "consequence_state (nextSlide gs pis cw) = consequence_state cw"
proof -
  have a: "consequence_state (persist_index sid i fb (c, w\<lparr>interactive_calls := x\<rparr>)) =
           consequence_state (c, w)" for sid i fb c w x
    by (simp add: persist_index_consequence) (simp add: consequence_state_def)
  show ?thesis
    by (cases cw) (auto simp: nextSlide_def Let_def persist_index_consequence a
        split: option.splits, auto simp: consequence_state_def)
qed

lemma previousSlide_consequence: "consequence_state (previousSlide cw) = consequence_state cw"
  by (auto simp: previousSlide_def persist_index_consequence split: option.splits)

lemma selectSlideByIndex_consequence:
  "consequence_state (selectSlideByIndex gs i cw) = consequence_state cw"
  by (auto simp: selectSlideByIndex_def persist_index_consequence split: option.splits)

lemma updateSession_consequence:
  "updateSession sid u w = (r, w') \<Longrightarrow>
   consequence_calls w' = consequence_calls w \<and> consequence_pending w' = consequence_pending w"
  using updateSession_world(1,2) by blast

lemma clearHostAlert_consequence:
  "consequence_state (clearHostAlert gs cw) = consequence_state cw"
  by (auto simp: clearHostAlert_def Let_def consequence_state_def navigation_error_def
      setDbSession_index_def split: option.splits prod.splits sum.splits
      dest: updateSession_consequence)

lemma step_navigation_consequence:
  "ev \<in> {NextSlide, PreviousSlide, ClearAlert} \<union> range SelectSlide \<Longrightarrow>
   consequence_state (step gs pis ev cw) = consequence_state cw"
  by (auto simp: nextSlide_consequence previousSlide_consequence selectSlideByIndex_consequence
      clearHostAlert_consequence)

lemma calls_for_cs: "consequence_state a = consequence_state b \<Longrightarrow> calls_for i a = calls_for i b"
  by (simp add: consequence_state_def calls_for_def)
lemma mark_count_cs: "consequence_state a = consequence_state b \<Longrightarrow> mark_count i a = mark_count i b"
  by (simp add: consequence_state_def mark_count_def)
lemma pending_marked_cs: "consequence_state a = consequence_state b \<Longrightarrow> pending_marked a = pending_marked b"
  by (simp add: consequence_state_def pending_marked_def)

lemma only_index_changed_identity:
  "only_index_changed a b \<Longrightarrow> map_option session_id a = map_option session_id b"
proof (cases a)
  case None
  then show "only_index_changed a b \<Longrightarrow> ?thesis"
    by (cases b) (simp_all add: only_index_changed_def)
next
  case (Some s)
  assume o: "only_index_changed a b"
  with Some obtain s' where b: "b = Some s'" and s': "s' = s\<lparr>current_slide_index := current_slide_index s'\<rparr>"
    by (cases b) (simp_all add: only_index_changed_def)
  from s' have "session_id s' = session_id s"
    by (metis GameSession.select_convs(1) GameSession.surjective GameSession.update_convs(6))
  with Some b show ?thesis by simp
qed

lemma navigation_frame_identity:
  "navigation_frame cw cw' \<Longrightarrow> session_identity cw' = session_identity cw"
  using only_index_changed_identity[of "dbSession (fst cw)" "dbSession (fst cw')"]
  by (simp add: navigation_frame_def session_identity_def)

lemma step_identity:
  assumes "keeps_session (session_identity cw) ev"
  shows "session_identity (step gs pis ev cw) = session_identity cw"
proof (cases ev)
  case Evaluate
  then show ?thesis
    by (auto simp: processConsequenceSlideAuto_start_def session_identity_def split: option.splits)
next
  case (Settled slide outcome)
  then show ?thesis
    by (cases outcome) (simp_all add: processConsequenceSlideAuto_settled_def session_identity_def)
next
  case NextSlide
  with navigation_frame_identity[OF nextSlide_frame[of "fst cw" "snd cw" gs pis]] show ?thesis
    by simp
next
  case PreviousSlide
  with navigation_frame_identity[OF previousSlide_frame[of "fst cw" "snd cw"]] show ?thesis
    by simp
next
  case (SelectSlide k)
  with navigation_frame_identity[OF selectSlideByIndex_frame[of "fst cw" "snd cw" gs k]] show ?thesis
    by simp
next
  case ClearAlert
  with navigation_frame_identity[OF clearHostAlert_frame[of "fst cw" "snd cw" gs]] show ?thesis
    by simp
next
  case (SessionChanged x)
  with assms show ?thesis
    by (auto simp: session_identity_def sessionInitEffect_def sessionChangedEffect_def
        split: option.splits)
qed

lemma step_invariant:
  assumes "pending_marked cw" "keeps_session (session_identity cw) ev"
  shows "pending_marked (step gs pis ev cw)"
    and "calls_for i (step gs pis ev cw) + mark_count i cw \<le>
         calls_for i cw + mark_count i (step gs pis ev cw) + (if is_failure_for i ev then 1 else 0)"
proof -
  have "pending_marked (step gs pis ev cw) \<and>
        calls_for i (step gs pis ev cw) + mark_count i cw \<le>
         calls_for i cw + mark_count i (step gs pis ev cw) + (if is_failure_for i ev then 1 else 0)"
  proof (cases ev)
    case Evaluate
    with assms(1) show ?thesis
      by (auto simp: processConsequenceSlideAuto_start_def pending_marked_def calls_for_def
          mark_count_def split: option.splits)
  next
    case (Settled slide outcome)
    show ?thesis
    proof (cases "slide \<in> set (consequence_pending (snd cw))")
      case False
      with Settled assms(1) show ?thesis by (cases outcome) simp_all
    next
      case True
      have d: "distinct (map slide_id (remove1 slide (consequence_pending (snd cw))))"
        using assms(1)
        by (auto simp: pending_marked_def distinct_map intro: inj_on_diff)
      have n: "slide_id slide \<notin> slide_id ` set (remove1 slide (consequence_pending (snd cw)))"
        using assms(1) True
        by (auto simp: pending_marked_def distinct_map inj_on_def)
      have s: "set (remove1 slide (consequence_pending (snd cw))) \<subseteq> set (consequence_pending (snd cw))"
        by (rule set_remove1_subset)
      have n': "\<forall>x \<in> set (remove1 slide (consequence_pending (snd cw))). slide_id x \<noteq> slide_id slide"
        using n by (metis imageI)
      from Settled True assms(1) d n' s show ?thesis
        by (cases outcome)
           (auto simp: processConsequenceSlideAuto_settled_def pending_marked_def calls_for_def
              mark_count_def)
    qed
  next
    case (SessionChanged x)
    with assms(2) have "consequence_state (step gs pis ev cw) = consequence_state cw"
      by (auto simp: consequence_state_def sessionChangedEffect_def sessionInitEffect_def
          session_identity_def Let_def split: option.splits)
    with assms(1) SessionChanged show ?thesis
      using calls_for_cs[of "step gs pis ev cw" cw i] mark_count_cs[of "step gs pis ev cw" cw i]
        pending_marked_cs[of "step gs pis ev cw" cw] by simp
  next
    case NextSlide
    then have "consequence_state (step gs pis ev cw) = consequence_state cw"
      by (simp add: nextSlide_consequence)
    with assms(1) NextSlide show ?thesis
      using calls_for_cs[of "step gs pis ev cw" cw i] mark_count_cs[of "step gs pis ev cw" cw i]
        pending_marked_cs[of "step gs pis ev cw" cw] by simp
  next
    case PreviousSlide
    then have "consequence_state (step gs pis ev cw) = consequence_state cw"
      by (simp add: previousSlide_consequence)
    with assms(1) PreviousSlide show ?thesis
      using calls_for_cs[of "step gs pis ev cw" cw i] mark_count_cs[of "step gs pis ev cw" cw i]
        pending_marked_cs[of "step gs pis ev cw" cw] by simp
  next
    case (SelectSlide k)
    then have "consequence_state (step gs pis ev cw) = consequence_state cw"
      by (simp add: selectSlideByIndex_consequence)
    with assms(1) SelectSlide show ?thesis
      using calls_for_cs[of "step gs pis ev cw" cw i] mark_count_cs[of "step gs pis ev cw" cw i]
        pending_marked_cs[of "step gs pis ev cw" cw] by simp
  next
    case ClearAlert
    then have "consequence_state (step gs pis ev cw) = consequence_state cw"
      by (simp add: clearHostAlert_consequence)
    with assms(1) ClearAlert show ?thesis
      using calls_for_cs[of "step gs pis ev cw" cw i] mark_count_cs[of "step gs pis ev cw" cw i]
        pending_marked_cs[of "step gs pis ev cw" cw] by simp
  qed
  then show "pending_marked (step gs pis ev cw)"
    and "calls_for i (step gs pis ev cw) + mark_count i cw \<le>
         calls_for i cw + mark_count i (step gs pis ev cw) + (if is_failure_for i ev then 1 else 0)"
    by simp_all
qed

lemma run_invariant:
  "pending_marked cw \<Longrightarrow> same_session_load cw evs \<Longrightarrow>
   calls_for i (run gs pis evs cw) + mark_count i cw \<le>
     calls_for i cw + mark_count i (run gs pis evs cw) + failures_for i evs"
proof (induction evs arbitrary: cw)
  case Nil
  then show ?case by (simp add: run_def failures_for_def)
next
  case (Cons ev evs)
  from Cons.prems(2) have ns: "keeps_session (session_identity cw) ev"
    and "list_all (keeps_session (session_identity cw)) evs"
    by (simp_all add: same_session_load_def)
  then have rest: "same_session_load (step gs pis ev cw) evs"
    by (simp add: same_session_load_def step_identity[OF ns])
  note st = step_invariant[OF Cons.prems(1) ns, where gs = gs and pis = pis]
  from Cons.IH[OF st(1) rest] st(2)[where i = i] show ?case
    by (cases "is_failure_for i ev") (simp_all add: run_def failures_for_def)
qed

lemma fresh_load_pending_marked: "fresh_load cw \<Longrightarrow> pending_marked cw"
  by (simp add: fresh_load_def pending_marked_def)

lemma evaluate_twice:
  "consequence_calls (snd (step gs pis Evaluate (step gs pis Evaluate cw))) =
   consequence_calls (snd (step gs pis Evaluate cw))"
  by (auto simp: processConsequenceSlideAuto_start_def currentSlideData_def currentSlideIndex_def
      split: option.splits)

lemma demo_last_evaluate:
  "step (Some demo_structure) pis Evaluate (demo_controller_last, demo_world_last) =
     (demo_controller_last\<lparr>processedConsequenceSlides := {12}\<rparr>,
      demo_world_last\<lparr>consequence_calls := [demo_consequence_slide],
                      consequence_pending := [demo_consequence_slide]\<rparr>)"
  by (simp add: processConsequenceSlideAuto_start_def currentSlideData_def currentSlideIndex_def
      array_get_def demo_controller_last_def demo_world_last_def demo_controller_def
      demo_world_def demo_structure_def demo_consequence_slide_def)

lemma demo_last_evaluate_again:
  "step (Some demo_structure) pis Evaluate
     (demo_controller_last\<lparr>processedConsequenceSlides := {12}\<rparr>, w) =
     (demo_controller_last\<lparr>processedConsequenceSlides := {12}\<rparr>, w)"
  by (simp add: processConsequenceSlideAuto_start_def currentSlideData_def currentSlideIndex_def
      array_get_def demo_controller_last_def demo_controller_def demo_structure_def)

text \<open>
  C1. Start from a fresh load (nothing processed, no processor call made or in flight) and
  let any sequence of events happen in which the session identity does not change:
  evaluations of the consequence effect, settling processor calls, navigation, alert
  dismissal, renders with a session of the same identity (the reset effect clears the
  processed set only when the identities differ). Then for every slide identifier the external consequence processor has been
  called at most once more than it has failed for that identifier; with no failure it has
  been called at most once. In particular an evaluation that directly follows an
  evaluation makes no additional call: the identifier was added to the processed set
  synchronously, before the asynchronous call began.
\<close>

theorem consequence_processor_at_most_once:
  assumes "fresh_load cw" and "same_session_load cw evs"
  shows "calls_for i (run gs pis evs cw) \<le> Suc (failures_for i evs)
       \<and> calls_for i (run gs pis (evs @ [Evaluate, Evaluate]) cw) =
           calls_for i (run gs pis (evs @ [Evaluate]) cw)"
proof -
  have "calls_for i cw = 0" "mark_count i cw = 0"
    using assms(1) by (simp_all add: fresh_load_def calls_for_def mark_count_def)
  moreover have "mark_count i (run gs pis evs cw) \<le> 1"
    by (simp add: mark_count_def)
  ultimately have "calls_for i (run gs pis evs cw) \<le> Suc (failures_for i evs)"
    using run_invariant[OF fresh_load_pending_marked[OF assms(1)] assms(2), of i gs pis]
    by simp
  moreover have "calls_for i (run gs pis (evs @ [Evaluate, Evaluate]) cw) =
           calls_for i (run gs pis (evs @ [Evaluate]) cw)"
    by (simp add: run_def calls_for_def evaluate_twice del: step.simps)
  ultimately show ?thesis by simp
qed

lemma demo_last_same_session:
  "step (Some demo_structure) pis (SessionChanged (Some demo_session))
     (demo_controller_last\<lparr>processedConsequenceSlides := {12}\<rparr>, w) =
     (demo_controller_last\<lparr>processedConsequenceSlides := {12}\<rparr>, w)"
  by (simp add: sessionChangedEffect_def sessionInitEffect_def demo_controller_last_def
      demo_controller_def)

theorem consequence_processor_at_most_once_witness:
  "fresh_load (demo_controller_last, demo_world_last)
   \<and> same_session_load (demo_controller_last, demo_world_last)
        [Evaluate, SessionChanged (Some demo_session), Evaluate,
         Settled demo_consequence_slide None, Evaluate]
   \<and> failures_for 12 [Evaluate, SessionChanged (Some demo_session), Evaluate,
         Settled demo_consequence_slide None, Evaluate] = 0
   \<and> calls_for 12 (run (Some demo_structure) (\<lambda>_. None)
        [Evaluate, SessionChanged (Some demo_session), Evaluate,
         Settled demo_consequence_slide None, Evaluate]
        (demo_controller_last, demo_world_last)) = 1"
proof -
  have f: "fresh_load (demo_controller_last, demo_world_last)"
    by (simp add: fresh_load_def demo_controller_last_def demo_world_last_def
        demo_controller_def demo_world_def)
  have s: "same_session_load (demo_controller_last, demo_world_last)
        [Evaluate, SessionChanged (Some demo_session), Evaluate,
         Settled demo_consequence_slide None, Evaluate]"
    by (simp add: same_session_load_def session_identity_def demo_controller_last_def
        demo_controller_def)
  have r: "calls_for 12 (run (Some demo_structure) (\<lambda>_. None)
        [Evaluate, SessionChanged (Some demo_session), Evaluate,
         Settled demo_consequence_slide None, Evaluate]
        (demo_controller_last, demo_world_last)) = 1"
    by (simp add: run_def demo_last_evaluate demo_last_evaluate_again demo_last_same_session
        processConsequenceSlideAuto_settled_def calls_for_def del: step.simps(1) step.simps(7))
       (simp add: demo_consequence_slide_def)
  from consequence_processor_at_most_once[OF f s, of 12 "Some demo_structure" "\<lambda>_. None"] f s r
  show ?thesis by (simp add: failures_for_def)
qed

section \<open>Consequence auto-processing: a failure releases the mark\<close>

text \<open>
  C4. Let the current slide be a consequence slide that is not marked as processed.
  Evaluating the effect marks it and calls the processor once. If that call fails, the
  mark is removed again, a host alert titled \<open>Processing Error\<close> is raised, and the next
  evaluation calls the processor again; if the call succeeds, the mark remains set and the
  next evaluation makes no further call.
\<close>

theorem consequence_failure_releases_mark:
  assumes "currentSlideData gs (fst cw) = Some slide"
    and "slide_type slide = ''consequence_reveal''"
    and "slide_id slide \<notin> processedConsequenceSlides (fst cw)"
  shows "slide_id slide \<in> processedConsequenceSlides (fst (step gs pis Evaluate cw))
       \<and> consequence_calls (snd (step gs pis Evaluate cw)) = consequence_calls (snd cw) @ [slide]
       \<and> slide_id slide \<notin> processedConsequenceSlides
             (fst (run gs pis [Evaluate, Settled slide (Some e)] cw))
       \<and> currentHostAlertState (fst (run gs pis [Evaluate, Settled slide (Some e)] cw)) =
           Some \<lparr>title = ''Processing Error'',
                 alert_message =
                   ''Failed to process consequence slide: '' @ message_or e ''Unknown error''\<rparr>
       \<and> consequence_calls (snd (run gs pis [Evaluate, Settled slide (Some e), Evaluate] cw)) =
           consequence_calls (snd cw) @ [slide, slide]
       \<and> slide_id slide \<in> processedConsequenceSlides
             (fst (run gs pis [Evaluate, Settled slide None] cw))
       \<and> consequence_calls (snd (run gs pis [Evaluate, Settled slide None, Evaluate] cw)) =
           consequence_calls (snd cw) @ [slide]"
proof -
  obtain g where g: "gs = Some g"
    using assms(1) by (cases gs) (simp_all add: currentSlideData_def)
  have e1: "step gs pis Evaluate cw =
      ((fst cw)\<lparr>processedConsequenceSlides := insert (slide_id slide) (processedConsequenceSlides (fst cw))\<rparr>,
       (snd cw)\<lparr>consequence_calls := consequence_calls (snd cw) @ [slide],
                consequence_pending := consequence_pending (snd cw) @ [slide]\<rparr>)"
    using assms g by (simp add: processConsequenceSlideAuto_start_def)
  have cur: "currentSlideData gs0 (c\<lparr>processedConsequenceSlides := p, currentHostAlertState := a\<rparr>) =
             currentSlideData gs0 c" for c p a gs0
    by (simp add: currentSlideData_def currentSlideIndex_def)
  have cur2: "currentSlideData gs0 (c\<lparr>processedConsequenceSlides := p\<rparr>) =
             currentSlideData gs0 c" for c p gs0
    by (simp add: currentSlideData_def currentSlideIndex_def)
  have cur3: "currentSlideData gs0 (c\<lparr>currentHostAlertState := a\<rparr>) = currentSlideData gs0 c" for c a gs0
    by (simp add: currentSlideData_def currentSlideIndex_def)
  show ?thesis
    using assms g
    by (simp add: run_def e1 processConsequenceSlideAuto_settled_def del: step.simps(1))
       (simp add: cur cur2 cur3 processConsequenceSlideAuto_start_def)
qed

theorem consequence_failure_releases_mark_witness:
  "slide_id demo_consequence_slide \<notin> processedConsequenceSlides
      (fst (run (Some demo_structure) (\<lambda>_. None)
              [Evaluate, Settled demo_consequence_slide (Some (Error ''boom''))]
              (demo_controller_last, demo_world_last)))
   \<and> consequence_calls
        (snd (run (Some demo_structure) (\<lambda>_. None)
                [Evaluate, Settled demo_consequence_slide (Some (Error ''boom'')), Evaluate]
                (demo_controller_last, demo_world_last))) =
       [demo_consequence_slide, demo_consequence_slide]
   \<and> consequence_calls
        (snd (run (Some demo_structure) (\<lambda>_. None)
                [Evaluate, Settled demo_consequence_slide None, Evaluate]
                (demo_controller_last, demo_world_last))) =
       [demo_consequence_slide]"
proof -
  have a: "currentSlideData (Some demo_structure) (fst (demo_controller_last, demo_world_last)) =
             Some demo_consequence_slide"
    by (simp add: currentSlideData_def currentSlideIndex_def array_get_def
        demo_controller_last_def demo_controller_def demo_structure_def
        demo_consequence_slide_def)
  have b: "slide_type demo_consequence_slide = ''consequence_reveal''"
    by (simp add: demo_consequence_slide_def)
  have c: "slide_id demo_consequence_slide \<notin>
             processedConsequenceSlides (fst (demo_controller_last, demo_world_last))"
    by (simp add: demo_controller_last_def demo_controller_def)
  have d: "consequence_calls (snd (demo_controller_last, demo_world_last)) = []"
    by (simp add: demo_world_last_def demo_world_def)
  from consequence_failure_releases_mark [OF a b c, of "\<lambda>_. None" "Error ''boom''"] d
  show ?thesis by simp
qed

section \<open>Resetting the progress of a session\<close>

text \<open>
  C5. Whatever the stored session was before, when the store call of
  \<open>resetSessionProgress\<close> goes through (the identifier is a real one, the session exists and
  the adapter does not fail) the one payload it hands to the store sets exactly the six
  fields below, and the session it returns and leaves in the store has
  \<open>current_slide_index = 0\<close>, \<open>is_playing = false\<close>, \<open>is_complete = false\<close>, empty
  \<open>host_notes\<close>, \<open>wizard_state = null\<close> and \<open>status = active\<close>, every other field as it was;
  the teams, the decisions and the log of team creations are untouched.
\<close>

theorem resetSessionProgress_resets:
  assumes "sessionId \<noteq> []" and "sessionId \<noteq> ''new''"
    and "sessions w sessionId = Some s"
    and "faults w = [] \<or> hd (faults w) = None"
  shows "\<exists>w'. resetSessionProgress sessionId w =
           (Inr (s\<lparr>current_slide_index := Some 0, is_playing := False, is_complete := False,
                   host_notes := Map.empty, status := Active, wizard_state := None\<rparr>), w')
         \<and> sessions w' sessionId =
             Some (s\<lparr>current_slide_index := Some 0, is_playing := False, is_complete := False,
                     host_notes := Map.empty, status := Active, wizard_state := None\<rparr>)
         \<and> session_update_calls w' =
             session_update_calls w @
               [(sessionId,
                 [Set_current_slide_index (Some 0), Set_is_playing False, Set_is_complete False,
                  Set_host_notes Map.empty, Set_status Active, Set_wizard_state None])]
         \<and> teams w' = teams w \<and> decisions w' = decisions w
         \<and> team_create_calls w' = team_create_calls w"
  unfolding resetSessionProgress_def updateSession_ok[OF assms]
  by (simp add: apply_updates_def)

theorem resetSessionProgress_resets_witness:
  "fst (resetSessionProgress ''s1'' demo_world) =
     Inr (demo_session\<lparr>current_slide_index := Some 0, is_playing := False, is_complete := False,
                      host_notes := Map.empty, status := Active, wizard_state := None\<rparr>)
   \<and> status demo_session = Completed \<and> is_complete demo_session \<and> is_playing demo_session
   \<and> current_slide_index demo_session = Some 1"
proof -
  have sid: "''s1'' \<noteq> []" "''s1'' \<noteq> ''new''" by simp_all
  have stored: "sessions demo_world ''s1'' = Some demo_session" by (simp add: demo_world_def)
  have up: "faults demo_world = [] \<or> hd (faults demo_world) = None" by (simp add: demo_world_def)
  from resetSessionProgress_resets [OF sid stored up]
  show ?thesis by (auto simp: demo_session_def)
qed

section \<open>Round-data feed events\<close>

lemma upsert_commute:
  assumes "(rd_team_id a, rd_round_number a) \<noteq> (rd_team_id b, rd_round_number b)"
  shows "upsertRoundData a (upsertRoundData b m) = upsertRoundData b (upsertRoundData a m)"
proof (cases "rd_team_id a = rd_team_id b")
  case True
  with assms have "rd_round_number a \<noteq> rd_round_number b" by simp
  with True show ?thesis
    by (auto simp: upsertRoundData_def fun_upd_twist split: option.splits)
next
  case False
  then show ?thesis
    by (auto simp: upsertRoundData_def fun_upd_twist split: option.splits)
qed

lemma upsert_slot:
  "lookup2 (upsertRoundData a m) t r =
     (if (t, r) = (rd_team_id a, rd_round_number a) then Some a else lookup2 m t r)"
  by (auto simp: upsertRoundData_def lookup2_def split: option.splits)

text \<open>
  C8. Two insert or update events of the round-data feed with distinct (team, round) keys
  commute: applied to any projection in either order they give the same projection. Each
  such event puts the row of its payload into its own (team, round) slot and leaves every
  other slot as it was; the handler makes no store call.
\<close>

theorem round_data_upserts_commute:
  assumes "upsert_key e1 = Some k1" and "upsert_key e2 = Some k2" and "k1 \<noteq> k2"
  shows "onRoundDataChange e1 (onRoundDataChange e2 m) = onRoundDataChange e2 (onRoundDataChange e1 m)
       \<and> lookup2 (onRoundDataChange e1 m) (fst k1) (snd k1) = upsert_row e1
       \<and> (\<forall>t r. (t, r) \<noteq> k1 \<longrightarrow> lookup2 (onRoundDataChange e1 m) t r = lookup2 m t r)"
proof -
  obtain a where a: "e1 = INSERT a \<or> e1 = UPDATE a"
    using assms(1) by (cases e1) auto
  obtain b where b: "e2 = INSERT b \<or> e2 = UPDATE b"
    using assms(2) by (cases e2) auto
  have k: "(rd_team_id a, rd_round_number a) \<noteq> (rd_team_id b, rd_round_number b)"
    using assms a b by auto
  have "onRoundDataChange e1 (onRoundDataChange e2 m) = onRoundDataChange e2 (onRoundDataChange e1 m)"
    using a b upsert_commute[OF k, of m] by auto
  moreover have "lookup2 (onRoundDataChange e1 m) (fst k1) (snd k1) = upsert_row e1"
    using a assms(1) by (auto simp: upsert_slot)
  moreover have "\<forall>t r. (t, r) \<noteq> k1 \<longrightarrow> lookup2 (onRoundDataChange e1 m) t r = lookup2 m t r"
    using a assms(1) by (auto simp: upsert_slot)
  ultimately show ?thesis by blast
qed

theorem round_data_upserts_commute_witness:
  "onRoundDataChange (INSERT demo_round1) (onRoundDataChange (INSERT demo_round2) Map.empty) =
     onRoundDataChange (INSERT demo_round2) (onRoundDataChange (INSERT demo_round1) Map.empty)
   \<and> lookup2 (onRoundDataChange (INSERT demo_round1) (onRoundDataChange (INSERT demo_round2) Map.empty))
        ''T'' 1 = Some demo_round1
   \<and> lookup2 (onRoundDataChange (INSERT demo_round1) (onRoundDataChange (INSERT demo_round2) Map.empty))
        ''T'' 2 = Some demo_round2"
proof -
  have k1: "upsert_key (INSERT demo_round1) = Some (''T'', 1)" by (simp add: demo_round1_def)
  have k2: "upsert_key (INSERT demo_round2) = Some (''T'', 2)" by (simp add: demo_round2_def)
  have ne: "(''T'', 1 :: int) \<noteq> (''T'', 2)" by simp
  note th = round_data_upserts_commute [OF k1 k2 ne]
  have c: "onRoundDataChange (INSERT demo_round1) (onRoundDataChange (INSERT demo_round2) Map.empty) =
     onRoundDataChange (INSERT demo_round2) (onRoundDataChange (INSERT demo_round1) Map.empty)"
    using th[of Map.empty] by (rule conjunct1)
  have a: "lookup2 (onRoundDataChange (INSERT demo_round1) (onRoundDataChange (INSERT demo_round2) Map.empty))
        ''T'' 1 = Some demo_round1"
    using th[of "onRoundDataChange (INSERT demo_round2) Map.empty"] by simp
  have b: "lookup2 (onRoundDataChange (INSERT demo_round1) (onRoundDataChange (INSERT demo_round2) Map.empty))
        ''T'' 2 = Some demo_round2"
  proof -
    have "lookup2 (onRoundDataChange (INSERT demo_round2) (onRoundDataChange (INSERT demo_round1) Map.empty))
        ''T'' 2 = Some demo_round2"
      using round_data_upserts_commute
              [OF k2 k1 ne[symmetric], of "onRoundDataChange (INSERT demo_round1) Map.empty"]
      by simp
    then show ?thesis by (simp only: c)
  qed
  from c a b show ?thesis by simp
qed

section \<open>Finalizing a draft with synthesized teams\<close>

declare nat_toString.simps [simp del]

lemma digit_char_is_digit: "d < 10 \<Longrightarrow> is_digit (digit_char d)"
  by (simp add: digit_char_def is_digit_def del: set_simps)

lemma nat_toString_digits: "list_all is_digit (nat_toString n)"
proof (induction n rule: nat_toString.induct)
  case (1 n)
  show ?case
  proof (cases "n < 10")
    case True
    then show ?thesis by (subst nat_toString.simps) (simp add: digit_char_is_digit)
  next
    case False
    with 1 show ?thesis
      by (subst nat_toString.simps) (simp add: digit_char_is_digit)
  qed
qed

lemma nat_toString_length4:
  assumes "1000 \<le> n" and "n \<le> 9999"
  shows "length (nat_toString n) = 4"
proof -
  have a: "\<not> n < 10" "\<not> n div 10 < 10" "\<not> n div 10 div 10 < 10" "n div 10 div 10 div 10 < 10"
    using assms by auto
  show ?thesis
    by (subst nat_toString.simps, simp add: a(1), subst nat_toString.simps, simp add: a(2),
        subst nat_toString.simps, simp add: a(3), subst nat_toString.simps, simp add: a(4))
qed

lemma round_half_even_ge: "of_int n \<le> x \<Longrightarrow> n \<le> round_half_even x"
proof -
  assume "of_int n \<le> x"
  then have "n \<le> \<lfloor>x\<rfloor>" by (simp add: le_floor_iff)
  then show ?thesis by (simp add: round_half_even_def)
qed

lemma round_half_even_below_half: "x < of_int n + 1 / 2 \<Longrightarrow> round_half_even x \<le> n"
proof -
  assume a: "x < of_int n + 1 / 2"
  then have f: "\<lfloor>x\<rfloor> \<le> n" by (simp add: floor_le_iff)
  show ?thesis
  proof (cases "\<lfloor>x\<rfloor> = n")
    case True
    with a have "x - of_int \<lfloor>x\<rfloor> < 1 / 2" by simp
    with True show ?thesis by (simp add: round_half_even_def)
  next
    case False
    with f have "\<lfloor>x\<rfloor> + 1 \<le> n" by simp
    then show ?thesis by (simp add: round_half_even_def)
  qed
qed

lemma round_half_even_le: "x \<le> of_int n \<Longrightarrow> round_half_even x \<le> n"
  by (rule round_half_even_below_half) simp

lemma round_half_even_of_int: "round_half_even (of_int n) = n"
  by (simp add: round_half_even_def)

lemma ulp_pos: "0 < ulp x"
  by (simp add: ulp_def)

lemma binade_ge: "- 1022 \<le> binade x"
  by (simp add: binade_def)

lemma binade_upper:
  assumes "0 < x"
  shows "x < 2 powr (of_int (binade x) + 1)"
proof -
  have "log 2 x < of_int \<lfloor>log 2 x\<rfloor> + 1" by linarith
  also have "\<dots> \<le> of_int (binade x) + 1"
    using assms by (simp add: binade_def)
  finally show ?thesis using assms by (simp add: less_powr_iff)
qed

lemma binade_lower:
  assumes "0 < x" and "- 1022 < binade x"
  shows "2 powr of_int (binade x) \<le> x"
proof -
  from assms have "binade x = \<lfloor>log 2 x\<rfloor>" by (simp add: binade_def max_def split: if_splits)
  then have "of_int (binade x) \<le> log 2 x" by simp
  then show ?thesis using assms(1) by (simp add: powr_le_iff)
qed

lemma binade_mono:
  assumes "0 < x" and "x \<le> y"
  shows "binade x \<le> binade y"
proof -
  from assms have "log 2 x \<le> log 2 y" by (simp add: log_mono)
  then have "\<lfloor>log 2 x\<rfloor> \<le> \<lfloor>log 2 y\<rfloor>" by (rule floor_mono)
  then show ?thesis using assms by (simp add: binade_def)
qed

lemma binade_eqI:
  assumes "- 1022 \<le> k" and "2 powr of_int k \<le> x" and "x < 2 powr (of_int k + 1)"
  shows "binade x = k"
proof -
  have pos: "0 < x" using assms(2) by (smt (verit) powr_gt_zero)
  from assms(2) pos have "of_int k \<le> log 2 x" by (simp add: le_log_iff)
  moreover from assms(3) pos have "log 2 x < of_int k + 1" by (simp add: log_less_iff)
  ultimately have "\<lfloor>log 2 x\<rfloor> = k" by (simp add: floor_eq_iff)
  with assms(1) pos show ?thesis by (simp add: binade_def)
qed

lemma round64_nonneg:
  assumes "0 \<le> x"
  shows "0 \<le> round64 x"
proof (cases "x = 0")
  case True
  then show ?thesis by (simp add: round64_def)
next
  case False
  have "of_int 0 \<le> x / ulp x" using assms ulp_pos[of x] by simp
  then have "0 \<le> round_half_even (x / ulp x)" by (rule round_half_even_ge)
  then show ?thesis using ulp_pos[of x] False by (simp add: round64_def)
qed

lemma is_double_multiple:
  assumes "is_double a" and "a \<noteq> 0"
  shows "a = of_int (round_half_even (a / ulp a)) * ulp a"
  using assms by (simp add: is_double_def round64_def)

lemma pow2_ratio: "(2::real) powr (of_int e + d) / 2 powr of_int (e - 52) = 2 powr (52 + d)"
proof -
  have "(2::real) powr (of_int e + d) / 2 powr of_int (e - 52) = 2 powr ((of_int e + d) - of_int (e - 52))"
    by (simp only: powr_diff)
  also have "(of_int e + d) - of_int (e - 52) = (52 + d :: real)" by simp
  finally show ?thesis .
qed

lemma round64_ge_double:
  assumes "is_double a" and "0 < a" and "a \<le> x"
  shows "a \<le> round64 x"
proof -
  have xpos: "0 < x" using assms by simp
  have le: "binade a \<le> binade x" using assms(2,3) by (rule binade_mono)
  have r: "round64 x = of_int (round_half_even (x / ulp x)) * ulp x"
    using xpos by (simp add: round64_def)
  show ?thesis
  proof (cases "binade a = binade x")
    case True
    then have u: "ulp a = ulp x" by (simp add: ulp_def)
    obtain n where a: "a = of_int n * ulp x"
      using is_double_multiple[OF assms(1)] assms(2) u by force
    have "of_int n = a / ulp x" using ulp_pos[of x] by (simp add: a)
    also have "\<dots> \<le> x / ulp x" using assms(3) ulp_pos[of x] by (simp add: divide_right_mono)
    finally have "n \<le> round_half_even (x / ulp x)" by (rule round_half_even_ge)
    then have "of_int n * ulp x \<le> of_int (round_half_even (x / ulp x)) * ulp x"
      using ulp_pos[of x] by simp
    with a r show ?thesis by simp
  next
    case False
    with le have lt: "binade a < binade x" by simp
    then have "- 1022 < binade x" using binade_ge[of a] by linarith
    then have lo: "2 powr of_int (binade x) \<le> x" using xpos by (simp add: binade_lower)
    have "a < 2 powr (of_int (binade a) + 1)" using assms(2) by (rule binade_upper)
    also have "\<dots> \<le> 2 powr of_int (binade x)"
      using lt by (intro powr_mono) simp_all
    finally have alt: "a < 2 powr of_int (binade x)" .
    have "2 powr (of_int (binade x) + 0) / ulp x = 2 powr (52 + 0)"
      unfolding ulp_def by (rule pow2_ratio)
    then have q: "2 powr of_int (binade x) / ulp x = of_int (2 ^ 52)" by simp
    have "of_int (2 ^ 52) \<le> x / ulp x"
      unfolding q[symmetric] using lo ulp_pos[of x] by (simp add: divide_right_mono)
    then have "2 ^ 52 \<le> round_half_even (x / ulp x)" by (rule round_half_even_ge)
    then have "of_int (2 ^ 52) * ulp x \<le> of_int (round_half_even (x / ulp x)) * ulp x"
      using ulp_pos[of x] by (simp del: of_int_power of_int_numeral)
    moreover have "of_int (2 ^ 52) * ulp x = 2 powr of_int (binade x)"
      using q ulp_pos[of x] by (simp add: field_simps)
    ultimately show ?thesis using alt r by linarith
  qed
qed

lemma round64_le_double:
  assumes "is_double b" and "0 < x" and "x \<le> b"
  shows "round64 x \<le> b"
proof -
  have bpos: "0 < b" using assms by simp
  have le: "binade x \<le> binade b" using assms(2,3) by (rule binade_mono)
  have r: "round64 x = of_int (round_half_even (x / ulp x)) * ulp x"
    using assms(2) by (simp add: round64_def)
  show ?thesis
  proof (cases "binade x = binade b")
    case True
    then have u: "ulp b = ulp x" by (simp add: ulp_def)
    obtain n where b: "b = of_int n * ulp x"
      using is_double_multiple[OF assms(1)] bpos u by force
    have "of_int n = b / ulp x" using ulp_pos[of x] by (simp add: b)
    then have "x / ulp x \<le> of_int n" using assms(3) ulp_pos[of x] by (simp add: divide_right_mono)
    then have "round_half_even (x / ulp x) \<le> n" by (rule round_half_even_le)
    then have "of_int (round_half_even (x / ulp x)) * ulp x \<le> of_int n * ulp x"
      using ulp_pos[of x] by simp
    with b r show ?thesis by simp
  next
    case False
    with le have lt: "binade x < binade b" by simp
    then have "- 1022 < binade b" using binade_ge[of x] by linarith
    then have lo: "2 powr of_int (binade b) \<le> b" using bpos by (simp add: binade_lower)
    have "(2::real) powr (of_int (binade x) + 1) \<le> 2 powr of_int (binade b)"
      using lt by (intro powr_mono) simp_all
    with lo have ble: "2 powr (of_int (binade x) + 1) \<le> b" by (rule order_trans[rotated])
    have up: "x < 2 powr (of_int (binade x) + 1)" using assms(2) by (rule binade_upper)
    have "2 powr (of_int (binade x) + 1) / ulp x = 2 powr (52 + 1)"
      unfolding ulp_def by (rule pow2_ratio)
    then have q: "2 powr (of_int (binade x) + 1) / ulp x = of_int (2 ^ 53)" by simp
    have "x / ulp x \<le> of_int (2 ^ 53)"
      unfolding q[symmetric] using up ulp_pos[of x] by (simp add: divide_right_mono)
    then have "round_half_even (x / ulp x) \<le> 2 ^ 53" by (rule round_half_even_le)
    then have "of_int (round_half_even (x / ulp x)) * ulp x \<le> of_int (2 ^ 53) * ulp x"
      using ulp_pos[of x] by (simp del: of_int_power of_int_numeral)
    moreover have "of_int (2 ^ 53) * ulp x = 2 powr (of_int (binade x) + 1)"
      using q ulp_pos[of x] by (simp add: field_simps)
    ultimately show ?thesis using ble r by linarith
  qed
qed


lemma ulp_of_binade: "binade x = k \<Longrightarrow> ulp x = 2 powr of_int (k - 52)"
  by (simp add: ulp_def)

lemma round64_exactI:
  assumes "- 1022 \<le> k" and "2 powr of_int k \<le> x" and "x < 2 powr (of_int k + 1)"
    and "x / 2 powr of_int (k - 52) = of_int n"
  shows "is_double x"
proof -
  have pos: "0 < x" using assms(2) by (smt (verit) powr_gt_zero)
  have u: "ulp x = 2 powr of_int (k - 52)"
    using binade_eqI[OF assms(1-3)] by (rule ulp_of_binade)
  have q: "x / ulp x = of_int n" unfolding u by (rule assms(4))
  have "round64 x = of_int (round_half_even (x / ulp x)) * ulp x"
    using pos by (simp add: round64_def)
  also have "\<dots> = (x / ulp x) * ulp x"
    by (simp only: q round_half_even_of_int)
  also have "\<dots> = x" using ulp_pos[of x] by simp
  finally show ?thesis by (simp add: is_double_def)
qed

lemma is_double_1000: "is_double 1000"
  by (rule round64_exactI[of 9 _ "1000 * 2 ^ 43"]) (simp_all add: powr_neg_numeral)

lemma is_double_8192: "is_double 8192"
  by (rule round64_exactI[of 13 _ "8192 * 2 ^ 39"]) (simp_all add: powr_neg_numeral)

lemma is_double_below_10000: "is_double (10000 - 1 / 2 ^ 39)"
  by (rule round64_exactI[of 13 _ "10000 * 2 ^ 39 - 1"]) (simp_all add: powr_neg_numeral)

lemma double_below_one:
  assumes "is_double r" and "r < 1"
  shows "r \<le> 1 - 1 / 2 ^ 53"
proof (cases "r < 1 / 2")
  case True
  then show ?thesis by simp
next
  case False
  then have half: "2 powr of_int (- 1) \<le> r" by simp
  have one: "r < 2 powr (of_int (- 1) + 1)" using assms(2) by simp
  have "binade r = - 1" using _ half one by (rule binade_eqI) simp
  then have u: "ulp r = 1 / 2 ^ 53" by (simp add: ulp_def powr_neg_numeral)
  from False have "r \<noteq> 0" by auto
  from is_double_multiple[OF assms(1) this] obtain n where n: "r = of_int n * (1 / 2 ^ 53)"
    unfolding u by blast
  with assms(2) have "of_int n < (2 ^ 53 :: real)" by (simp add: field_simps)
  then have "n < 2 ^ 53" by (metis of_int_less_iff of_int_numeral of_int_power)
  then have "n \<le> 2 ^ 53 - 1" by simp
  then have "(of_int n :: real) \<le> of_int (2 ^ 53 - 1)" by (simp only: of_int_le_iff)
  then have "(of_int n :: real) \<le> 2 ^ 53 - 1" by simp
  then show ?thesis unfolding n by (simp add: field_simps)
qed

lemma product_rounds_below_9000:
  assumes "0 \<le> x" and "x \<le> 9000 - 9000 / 2 ^ 53"
  shows "round64 x \<le> 9000 - 1 / 2 ^ 39"
proof (cases "x < 8192")
  case True
  show ?thesis
  proof (cases "x = 0")
    case True
    then show ?thesis by (simp add: round64_def)
  next
    case False
    with assms(1) have "0 < x" by simp
    from round64_le_double[OF is_double_8192 this] True have "round64 x \<le> 8192" by simp
    then show ?thesis by simp
  qed
next
  case False
  then have lo: "2 powr of_int 13 \<le> x" by simp
  have hi: "x < 2 powr (of_int 13 + 1)" using assms(2) by simp
  have "binade x = 13" using _ lo hi by (rule binade_eqI) simp
  then have u: "ulp x = 1 / 2 ^ 39" by (simp add: ulp_def powr_neg_numeral)
  have "x / ulp x < of_int (9000 * 2 ^ 39 - 1) + 1 / 2"
    using assms(2) by (simp add: u)
  then have "round_half_even (x / ulp x) \<le> 9000 * 2 ^ 39 - 1"
    by (rule round_half_even_below_half)
  then have "(of_int (round_half_even (x / ulp x)) :: real) \<le> of_int (9000 * 2 ^ 39 - 1)"
    by (simp only: of_int_le_iff)
  then have "of_int (round_half_even (x / ulp x)) * ulp x \<le> of_int (9000 * 2 ^ 39 - 1) * ulp x"
    using ulp_pos[of x] by (simp only: mult_le_cancel_right_pos)
  moreover have "of_int (9000 * 2 ^ 39 - 1) * ulp x = 9000 - 1 / 2 ^ 39" by (simp add: u)
  ultimately have "of_int (round_half_even (x / ulp x)) * ulp x \<le> 9000 - 1 / 2 ^ 39"
    by (rule ord_le_eq_trans)
  moreover have "x \<noteq> 0" using False by auto
  ultimately show ?thesis by (simp only: round64_def if_False)
qed

lemma passcode_number_range:
  assumes "is_double r" and "0 \<le> r" and "r < 1"
  shows "1000 \<le> \<lfloor>round64 (1000 + round64 (r * 9000))\<rfloor>"
    and "\<lfloor>round64 (1000 + round64 (r * 9000))\<rfloor> \<le> 9999"
proof -
  let ?y = "round64 (r * 9000)"
  have y0: "0 \<le> ?y" using assms(2) by (intro round64_nonneg) simp
  have "r * 9000 \<le> (1 - 1 / 2 ^ 53) * 9000"
    using double_below_one[OF assms(1,3)] by simp
  then have "r * 9000 \<le> 9000 - 9000 / 2 ^ 53" by simp
  then have y1: "?y \<le> 9000 - 1 / 2 ^ 39"
    using assms(2) by (intro product_rounds_below_9000) simp_all
  have lo: "1000 \<le> round64 (1000 + ?y)"
    using y0 by (intro round64_ge_double is_double_1000) simp_all
  have hi: "round64 (1000 + ?y) \<le> 10000 - 1 / 2 ^ 39"
    using y0 y1 by (intro round64_le_double is_double_below_10000) simp_all
  from lo show "1000 \<le> \<lfloor>round64 (1000 + round64 (r * 9000))\<rfloor>"
    by (simp add: le_floor_iff)
  from hi have "round64 (1000 + ?y) < 10000" by simp
  then have "\<lfloor>round64 (1000 + ?y)\<rfloor> < 10000" by (simp add: floor_less_iff)
  then show "\<lfloor>round64 (1000 + round64 (r * 9000))\<rfloor> \<le> 9999" by simp
qed

lemma default_team_passcode_eq:
  "ti_passcode (default_team sid random i) =
     int_toString \<lfloor>round64 (1000 + round64 (random i * 9000))\<rfloor>"
  by (simp add: default_team_def)

lemma default_team_passcode:
  assumes "is_double (random i)" and "0 \<le> random i" and "random i < 1"
  shows "length (ti_passcode (default_team sid random i)) = 4"
    and "list_all is_digit (ti_passcode (default_team sid random i))"
    and "\<exists>n. 1000 \<le> n \<and> n \<le> 9999 \<and> ti_passcode (default_team sid random i) = int_toString n"
proof -
  let ?n = "\<lfloor>round64 (1000 + round64 (random i * 9000))\<rfloor>"
  note b = passcode_number_range[OF assms]
  have nn: "\<not> ?n < 0" using b(1) by linarith
  have s: "int_toString ?n = nat_toString (nat ?n)"
    unfolding int_toString_def using nn by (simp only: if_False)
  have "1000 \<le> nat ?n" using b(1) by linarith
  moreover have "nat ?n \<le> 9999" using b by linarith
  ultimately have "length (nat_toString (nat ?n)) = 4"
    by (rule nat_toString_length4)
  then show "length (ti_passcode (default_team sid random i)) = 4"
    by (simp only: default_team_passcode_eq s)
  show "list_all is_digit (ti_passcode (default_team sid random i))"
    by (simp only: default_team_passcode_eq s nat_toString_digits)
  from b default_team_passcode_eq[of sid random i]
  show "\<exists>n. 1000 \<le> n \<and> n \<le> 9999 \<and> ti_passcode (default_team sid random i) = int_toString n"
    by blast
qed

lemma db_teams_create_world:
  "team_create_calls (snd (db_teams_create t w)) = team_create_calls w @ [t]"
  "sessions (snd (db_teams_create t w)) = sessions w"
  "session_update_calls (snd (db_teams_create t w)) = session_update_calls w"
  by (auto simp: db_teams_create_def next_fault_def Let_def split: list.splits option.splits)

lemma create_all_world:
  "team_create_calls (snd (create_all ts w)) = team_create_calls w @ ts \<and>
   sessions (snd (create_all ts w)) = sessions w \<and>
   session_update_calls (snd (create_all ts w)) = session_update_calls w"
proof (induction ts arbitrary: w)
  case Nil
  then show ?case by simp
next
  case (Cons t ts)
  from Cons[of "snd (db_teams_create t w)"] db_teams_create_world[of t w]
  show ?case by (simp add: case_prod_beta)
qed

lemma finalize_world:
  assumes "teams_config finalGameData = None \<or> teams_config finalGameData = Some []"
    and "num_teams finalGameData = 3"
    and "updateSession sessionId
                [Set_status Active,
                 Set_name (if trim (gd_name finalGameData) \<noteq> [] then trim (gd_name finalGameData)
                           else ''Game Session - '' @ today),
                 Set_class_name (or_null (map_option trim (gd_class_name finalGameData))),
                 Set_grade_level (or_null (gd_grade_level finalGameData)),
                 Set_game_version (gd_game_version finalGameData),
                 Set_wizard_state None] w = (Inr s1, w1)"
  shows "snd (finalizeDraftSession today random sessionId finalGameData w) =
           snd (create_all (map (default_team sessionId random) [0, 1, 2]) w1)"
proof -
  have up: "[0 ..< nat 3] = [0, 1, 2]" by (simp add: upt_rec)
  have tc: "(case teams_config finalGameData of None \<Rightarrow> [] | Some ts \<Rightarrow> ts) = []"
    using assms(1) by auto
  show ?thesis
    unfolding finalizeDraftSession_def Let_def assms(3) tc assms(2) up
    by (simp add: case_prod_beta split: option.splits)
qed

lemma default_team_names:
  "map ti_name (map (default_team sessionId random) [0, 1, 2]) =
     [code_units ''Team A'', code_units ''Team B'', code_units ''Team C'']"
  by (simp add: default_team_def code_units_def fromCharCode_def)

lemma round64_double: "is_double x \<Longrightarrow> round64 x = x"
  by (simp add: is_double_def)

lemma round64_in_binade:
  assumes "- 1022 \<le> k" and "2 powr of_int k \<le> x" and "x < 2 powr (of_int k + 1)"
  shows "round64 x =
           of_int (round_half_even (x / 2 powr of_int (k - 52))) * 2 powr of_int (k - 52)"
proof -
  have pos: "0 < x" using assms(2) by (smt (verit) powr_gt_zero)
  have u: "ulp x = 2 powr of_int (k - 52)"
    using binade_eqI[OF assms] by (rule ulp_of_binade)
  show ?thesis using pos by (simp only: round64_def u) simp
qed

lemma demo_random_doubles:
  "is_double (demo_random 0)" "is_double (demo_random 1)" "is_double (demo_random 2)"
proof -
  show "is_double (demo_random 0)" by (simp add: demo_random_def is_double_def round64_def)
  have "is_double (1 / 2)"
    by (rule round64_exactI[of "- 1" _ "2 ^ 52"]) (simp_all add: powr_neg_numeral)
  then show "is_double (demo_random 1)" by (simp add: demo_random_def)
  have "is_double (2001599834386887 / 2 ^ 54)"
    by (rule round64_exactI[of "- 4" _ "2001599834386887 * 4"]) (simp_all add: powr_neg_numeral)
  then show "is_double (demo_random 2)" by (simp add: demo_random_def)
qed

text \<open>
  The third sample value is the double nearest to 0.1111111111111111. Its exact product
  with 9000 is below 1000, and the product as a double is 1000: the passcode is 2000,
  where exact arithmetic would give 1999.
\<close>

lemma demo_product_rounds_up:
  "round64 (2001599834386887 / 2 ^ 54 * 9000) = 1000"
  "\<lfloor>1000 + 2001599834386887 / 2 ^ 54 * 9000 :: real\<rfloor> = 1999"
proof -
  have "round64 (2001599834386887 / 2 ^ 54 * 9000) =
          of_int (round_half_even (2001599834386887 / 2 ^ 54 * 9000 / 2 powr of_int (9 - 52))) *
          2 powr of_int (9 - 52)"
    by (rule round64_in_binade) simp_all
  also have "2001599834386887 / 2 ^ 54 * 9000 / 2 powr of_int (9 - 52) =
             (2251799813685247875 / 256 :: real)"
    by (simp add: powr_neg_numeral)
  also have "round_half_even (2251799813685247875 / 256) = 8796093022208000"
    by (simp add: round_half_even_def)
  finally show "round64 (2001599834386887 / 2 ^ 54 * 9000) = 1000"
    by (simp add: powr_neg_numeral)
  show "\<lfloor>1000 + 2001599834386887 / 2 ^ 54 * 9000 :: real\<rfloor> = 1999"
    by (simp add: floor_eq_iff)
qed

lemma demo_passcodes:
  "int_toString \<lfloor>round64 (1000 + round64 (demo_random 0 * 9000))\<rfloor> = ''1000''"
  "int_toString \<lfloor>round64 (1000 + round64 (demo_random 1 * 9000))\<rfloor> = ''5500''"
  "int_toString \<lfloor>round64 (1000 + round64 (demo_random 2 * 9000))\<rfloor> = ''2000''"
proof -
  have d1000: "round64 1000 = 1000" using is_double_1000 by (rule round64_double)
  have "is_double 4500"
    by (rule round64_exactI[of 12 _ "4500 * 2 ^ 40"]) (simp_all add: powr_neg_numeral)
  then have d4500: "round64 4500 = 4500" by (rule round64_double)
  have "is_double 5500"
    by (rule round64_exactI[of 12 _ "5500 * 2 ^ 40"]) (simp_all add: powr_neg_numeral)
  then have d5500: "round64 5500 = 5500" by (rule round64_double)
  have "is_double 2000"
    by (rule round64_exactI[of 10 _ "2000 * 2 ^ 42"]) (simp_all add: powr_neg_numeral)
  then have d2000: "round64 2000 = 2000" by (rule round64_double)
  have z: "round64 0 = 0" by (simp add: round64_def)
  show "int_toString \<lfloor>round64 (1000 + round64 (demo_random 0 * 9000))\<rfloor> = ''1000''"
    by (simp add: demo_random_def z d1000 int_toString_def nat_toString.simps digit_char_def)
  show "int_toString \<lfloor>round64 (1000 + round64 (demo_random 1 * 9000))\<rfloor> = ''5500''"
    by (simp add: demo_random_def d4500 d5500 int_toString_def nat_toString.simps digit_char_def)
  have "demo_random 2 * 9000 = 2001599834386887 / 2 ^ 54 * 9000"
    by (simp add: demo_random_def)
  then have "round64 (1000 + round64 (demo_random 2 * 9000)) = 2000"
    by (simp only: demo_product_rounds_up(1)) (simp add: d2000)
  then show "int_toString \<lfloor>round64 (1000 + round64 (demo_random 2 * 9000))\<rfloor> = ''2000''"
    by (simp add: int_toString_def nat_toString.simps digit_char_def)
qed

lemma demo_default_teams:
  "map (default_team ''s1'' demo_random) [0, 1, 2] =
     [\<lparr>ti_session_id = ''s1'', ti_name = code_units ''Team A'', ti_passcode = ''1000''\<rparr>,
      \<lparr>ti_session_id = ''s1'', ti_name = code_units ''Team B'', ti_passcode = ''5500''\<rparr>,
      \<lparr>ti_session_id = ''s1'', ti_name = code_units ''Team C'', ti_passcode = ''2000''\<rparr>]"
proof -
  have n: "code_units ''Team '' @ fromCharCode (65 + i) =
           (if i = 0 then code_units ''Team A'' else if i = 1 then code_units ''Team B''
            else code_units ''Team C'')" if "i < 3" for i
  proof -
    from that have "i = 0 \<or> i = 1 \<or> i = 2" by auto
    then show ?thesis by (auto simp: code_units_def fromCharCode_def)
  qed
  show ?thesis
    using demo_passcodes n[of 0] n[of 1] n[of 2]
    by (simp add: default_team_def del: One_nat_def)
qed

text \<open>
  C6. Finalizing with no explicit team list (absent or empty) and \<open>num_teams = 3\<close>, when the
  session update goes through (the identifier is a real one, the draft exists and the
  adapter does not fail on it): the payload of that update sets \<open>status = active\<close> and
  \<open>wizard_state = null\<close>; exactly three team-creation calls are made, for
  \<open>Team A\<close>, \<open>Team B\<close> and \<open>Team C\<close> in this order; each passcode is a string of four decimal
  digits, the decimal rendering of an integer between 1000 and 9999; and the stored session
  has \<open>status = active\<close> and \<open>wizard_state = null\<close>. The values of \<open>Math.random()\<close> are any
  doubles in \<open>[0, 1)\<close>; the product with 9000 and the sum with 1000 are the rounded ones of
  binary64 arithmetic, as JavaScript computes them; the names are compared as sequences of
  UTF-16 code units. All of this holds whether or not a team-creation call fails.
\<close>

theorem finalizeDraftSession_three_default_teams:
  assumes "teams_config finalGameData = None \<or> teams_config finalGameData = Some []"
    and "num_teams finalGameData = 3"
    and "\<forall>i<3. is_double (random i) \<and> 0 \<le> random i \<and> random i < 1"
    and "sessionId \<noteq> []" and "sessionId \<noteq> ''new''"
    and "sessions w sessionId = Some s"
    and "faults w = [] \<or> hd (faults w) = None"
  shows "team_create_calls (snd (finalizeDraftSession today random sessionId finalGameData w)) =
           team_create_calls w @ map (default_team sessionId random) [0, 1, 2]
       \<and> map ti_name (map (default_team sessionId random) [0, 1, 2]) =
           [code_units ''Team A'', code_units ''Team B'', code_units ''Team C'']
       \<and> (\<forall>t \<in> set (map (default_team sessionId random) [0, 1, 2]).
             length (ti_passcode t) = 4 \<and> list_all is_digit (ti_passcode t) \<and>
             (\<exists>n. 1000 \<le> n \<and> n \<le> 9999 \<and> ti_passcode t = int_toString n))
       \<and> (\<exists>updates.
             session_update_calls (snd (finalizeDraftSession today random sessionId finalGameData w)) =
               session_update_calls w @ [(sessionId, updates)]
             \<and> Set_status Active \<in> set updates \<and> Set_wizard_state None \<in> set updates)
       \<and> (\<exists>s'. sessions (snd (finalizeDraftSession today random sessionId finalGameData w)) sessionId = Some s'
                \<and> status s' = Active \<and> wizard_state s' = None)"
proof -
  let ?upd = "[Set_status Active,
                 Set_name (if trim (gd_name finalGameData) \<noteq> [] then trim (gd_name finalGameData)
                           else ''Game Session - '' @ today),
                 Set_class_name (or_null (map_option trim (gd_class_name finalGameData))),
                 Set_grade_level (or_null (gd_grade_level finalGameData)),
                 Set_game_version (gd_game_version finalGameData),
                 Set_wizard_state None]"
  let ?w1 = "w\<lparr>session_update_calls := session_update_calls w @ [(sessionId, ?upd)],
              faults := tl (faults w),
              sessions := (sessions w)(sessionId \<mapsto> apply_updates ?upd s)\<rparr>"
  let ?new = "map (default_team sessionId random) [0, 1, 2]"
  let ?r = "finalizeDraftSession today random sessionId finalGameData w"
  have u: "updateSession sessionId ?upd w = (Inr (apply_updates ?upd s), ?w1)"
    using assms(4-7) by (rule updateSession_ok)
  have r: "snd ?r = snd (create_all ?new ?w1)"
    using assms(1,2) u by (rule finalize_world)
  have pass: "length (ti_passcode t) = 4 \<and> list_all is_digit (ti_passcode t) \<and>
             (\<exists>n. 1000 \<le> n \<and> n \<le> 9999 \<and> ti_passcode t = int_toString n)"
    if "t \<in> set ?new" for t
  proof -
    have p: "length (ti_passcode (default_team sessionId random i)) = 4 \<and>
             list_all is_digit (ti_passcode (default_team sessionId random i)) \<and>
             (\<exists>n. 1000 \<le> n \<and> n \<le> 9999 \<and>
                  ti_passcode (default_team sessionId random i) = int_toString n)"
      if "i < 3" for i
    proof -
      from assms(3) that have "is_double (random i)" "0 \<le> random i" "random i < 1" by auto
      from default_team_passcode[where random = random and i = i and sid = sessionId, OF this]
      show ?thesis by blast
    qed
    from that have "t = default_team sessionId random 0 \<or> t = default_team sessionId random 1
        \<or> t = default_team sessionId random 2" by auto
    with p[of 0] p[of 1] p[of 2] show ?thesis by auto
  qed
  have cw: "team_create_calls (snd (create_all ?new ?w1)) = team_create_calls ?w1 @ ?new"
    "sessions (snd (create_all ?new ?w1)) = sessions ?w1"
    "session_update_calls (snd (create_all ?new ?w1)) = session_update_calls ?w1"
    using create_all_world[of ?new ?w1] by blast+
  have calls: "team_create_calls (snd ?r) = team_create_calls w @ ?new"
    unfolding r cw by simp
  have sess: "sessions (snd ?r) sessionId = Some (apply_updates ?upd s)"
    unfolding r cw by simp
  have st: "status (apply_updates ?upd s) = Active \<and> wizard_state (apply_updates ?upd s) = None"
    by (simp add: apply_updates_def)
  have upd: "\<exists>updates. session_update_calls (snd ?r) = session_update_calls w @ [(sessionId, updates)]
             \<and> Set_status Active \<in> set updates \<and> Set_wizard_state None \<in> set updates"
    unfolding r cw by simp
  from calls default_team_names pass sess st upd show ?thesis by blast
qed

theorem finalizeDraftSession_three_default_teams_witness:
  "team_create_calls (snd (finalizeDraftSession ''11/3/2026'' demo_random ''s1'' demo_game_data demo_world)) =
     [\<lparr>ti_session_id = ''s1'', ti_name = code_units ''Team A'', ti_passcode = ''1000''\<rparr>,
      \<lparr>ti_session_id = ''s1'', ti_name = code_units ''Team B'', ti_passcode = ''5500''\<rparr>,
      \<lparr>ti_session_id = ''s1'', ti_name = code_units ''Team C'', ti_passcode = ''2000''\<rparr>]
   \<and> status demo_session = Completed"
proof -
  have 1: "teams_config demo_game_data = None \<or> teams_config demo_game_data = Some []"
    by (simp add: demo_game_data_def)
  have 2: "num_teams demo_game_data = 3" by (simp add: demo_game_data_def)
  have 3: "\<forall>i<3. is_double (demo_random i) \<and> 0 \<le> demo_random i \<and> demo_random i < 1"
  proof (intro allI impI)
    fix i :: nat
    assume "i < 3"
    then have "i = 0 \<or> i = 1 \<or> i = 2" by auto
    then have "is_double (demo_random i)" using demo_random_doubles by auto
    moreover have "0 \<le> demo_random i \<and> demo_random i < 1" by (simp add: demo_random_def)
    ultimately show "is_double (demo_random i) \<and> 0 \<le> demo_random i \<and> demo_random i < 1"
      by simp
  qed
  have 4: "''s1'' \<noteq> []" "''s1'' \<noteq> ''new''" by simp_all
  have 5: "sessions demo_world ''s1'' = Some demo_session" by (simp add: demo_world_def)
  have 6: "faults demo_world = [] \<or> hd (faults demo_world) = None" by (simp add: demo_world_def)
  have 7: "team_create_calls demo_world = []" by (simp add: demo_world_def)
  from finalizeDraftSession_three_default_teams [OF 1 2 3 4 5 6, of "''11/3/2026''"]
  have "team_create_calls (snd (finalizeDraftSession ''11/3/2026'' demo_random ''s1'' demo_game_data demo_world)) =
           team_create_calls demo_world @ map (default_team ''s1'' demo_random) [0, 1, 2]"
    by (rule conjunct1)
  then show ?thesis unfolding 7 demo_default_teams by (simp add: demo_session_def)
qed

section \<open>Resetting one decision of a team\<close>

lemma removeDecisionLocal_other_phase:
  "p \<noteq> q \<Longrightarrow> lookup2 (removeDecisionLocal t p m) t q = lookup2 m t q"
proof (cases "m t")
  case None
  then show ?thesis by (simp add: removeDecisionLocal_def lookup2_def)
next
  case (Some phases)
  assume pq: "p \<noteq> q"
  show ?thesis
  proof (cases "dom (phases(p := None)) = {}")
    case True
    then have "q \<notin> dom phases" using pq by auto
    then have "phases q = None" by (simp add: domIff)
    with Some True show ?thesis
      by (simp add: removeDecisionLocal_def lookup2_def split: option.splits)
  next
    case False
    with Some pq show ?thesis
      by (simp add: removeDecisionLocal_def lookup2_def split: option.splits)
  qed
qed

lemma removeDecisionLocal_other_team:
  "t' \<noteq> t \<Longrightarrow> removeDecisionLocal t p m t' = m t'"
  by (auto simp: removeDecisionLocal_def split: option.splits)

lemma removeDecisionLocal_removed: "lookup2 (removeDecisionLocal t p m) t p = None"
  by (auto simp: removeDecisionLocal_def lookup2_def split: option.splits)

lemma removeDecisionLocal_pruned_only_when_empty:
  "m t = Some phases \<Longrightarrow> removeDecisionLocal t p m t = None \<Longrightarrow> dom phases = {p}"
  by (auto simp: removeDecisionLocal_def split: option.splits if_splits)

lemma removeDecisionLocal_pruned_when_empty:
  "m t = Some phases \<Longrightarrow> dom phases = {p} \<Longrightarrow> removeDecisionLocal t p m t = None"
  by (auto simp: removeDecisionLocal_def split: option.splits if_splits)

lemma next_fault_healthy:
  assumes "store_healthy (Suc n) w"
  shows "\<exists>w'. next_fault w = (None, w') \<and> store_healthy n w' \<and> decisions w' = decisions w"
proof (cases "faults w")
  case Nil
  then show ?thesis by (simp add: next_fault_def store_healthy_def)
next
  case (Cons f fs)
  with assms show ?thesis by (simp add: next_fault_def store_healthy_def)
qed

lemma lookup2_file_decision:
  "lookup2 (file_decision d m) t k =
     (if t = td_team_id d \<and> k = td_phase_id d then Some d else lookup2 m t k)"
  by (auto simp: file_decision_def lookup2_def split: option.splits)

lemma lookup2_fold_file_decision:
  "lookup2 (fold file_decision rows m) t k =
     (case find (\<lambda>d. td_team_id d = t \<and> td_phase_id d = k) (rev rows) of
        Some d \<Rightarrow> Some d
      | None \<Rightarrow> lookup2 m t k)"
proof (induction rows rule: rev_induct)
  case Nil
  show ?case by simp
next
  case (snoc d rows)
  then show ?case by (auto simp: lookup2_file_decision)
qed

lemma find_filter_same:
  assumes "\<And>x. P x \<Longrightarrow> Q x"
  shows "find P (filter Q xs) = find P xs"
  using assms by (induction xs) auto

lemma find_filter_none:
  assumes "\<And>x. P x \<Longrightarrow> \<not> Q x"
  shows "find P (filter Q xs) = None"
  using assms by (induction xs) auto

lemma no_empty_entry_file_decision:
  "no_empty_entry m \<Longrightarrow> no_empty_entry (file_decision d m)"
  by (auto simp: no_empty_entry_def file_decision_def split: option.splits if_splits)

lemma no_empty_entry_fold:
  "no_empty_entry m \<Longrightarrow> no_empty_entry (fold file_decision rows m)"
  by (induction rows arbitrary: m) (simp_all add: no_empty_entry_file_decision)

lemma no_empty_entry_empty: "no_empty_entry Map.empty"
  by (simp add: no_empty_entry_def)

lemma no_empty_entry_removeDecisionLocal:
  "no_empty_entry m \<Longrightarrow> no_empty_entry (removeDecisionLocal t p m)"
  by (auto simp: no_empty_entry_def removeDecisionLocal_def split: option.splits if_splits)
     (metis fun_upd_other option.distinct(1))

lemma entry_none_iff:
  assumes "no_empty_entry m"
  shows "m t = None \<longleftrightarrow> (\<forall>k. lookup2 m t k = None)"
proof (cases "m t")
  case None
  then show ?thesis by (simp add: lookup2_def)
next
  case (Some r)
  with assms have "r \<noteq> Map.empty" by (simp add: no_empty_entry_def)
  then obtain k where "r k \<noteq> None" by fastforce
  with Some show ?thesis by (auto simp: lookup2_def)
qed

lemma nested_map_eqI:
  assumes "no_empty_entry m1" and "no_empty_entry m2"
    and "\<And>t k. lookup2 m1 t k = lookup2 m2 t k"
  shows "m1 = m2"
proof
  fix t
  show "m1 t = m2 t"
  proof (cases "m1 t")
    case None
    then have "\<forall>k. lookup2 m2 t k = None"
      using entry_none_iff[OF assms(1), of t] assms(3) by simp
    then have "m2 t = None" using entry_none_iff[OF assms(2), of t] by simp
    with None show ?thesis by simp
  next
    case (Some r1)
    then have "\<not> (\<forall>k. lookup2 m2 t k = None)"
      using entry_none_iff[OF assms(1), of t] assms(3) by simp
    then obtain r2 where r2: "m2 t = Some r2"
      using entry_none_iff[OF assms(2), of t] by auto
    have "r1 k = r2 k" for k
      using assms(3)[of t k] Some r2 by (simp add: lookup2_def)
    then have "r1 = r2" by (rule ext)
    with Some r2 show ?thesis by simp
  qed
qed

lemma db_decisions_delete_healthy:
  assumes "store_healthy (Suc n) w"
  shows "\<exists>w1. db_decisions_delete sid t p w = (None, w1) \<and> store_healthy n w1 \<and>
           decisions w1 =
             filter (\<lambda>d. \<not> (td_session_id d = sid \<and> td_team_id d = t \<and> td_phase_id d = p))
               (decisions w)"
  using next_fault_healthy[OF assms] by (auto simp: db_decisions_delete_def store_healthy_def)

lemma db_decisions_getBySession_healthy:
  assumes "store_healthy (Suc n) w"
  shows "fst (db_decisions_getBySession sid w) =
           Inr (filter (\<lambda>d. td_session_id d = sid) (decisions w))"
  using next_fault_healthy[OF assms] by (auto simp: db_decisions_getBySession_def)

lemma resetTeamDecisionInDb_healthy:
  assumes "sid \<noteq> []" and "sid \<noteq> ''new''" and "t \<noteq> []" and "p \<noteq> []"
    and "store_healthy 2 w"
  shows "fst (resetTeamDecisionInDb sid t p (st, w)) = None"
    and "teamDecisions (fst (snd (resetTeamDecisionInDb sid t p (st, w)))) =
           fold file_decision
             (filter (\<lambda>d. \<not> (td_team_id d = t \<and> td_phase_id d = p))
                (filter (\<lambda>d. td_session_id d = sid) (decisions w))) Map.empty"
proof -
  have h: "store_healthy (Suc (Suc 0)) w" using assms(5) by (simp add: numeral_2_eq_2)
  from db_decisions_delete_healthy[OF h, of sid t p] obtain w1 where
    d: "db_decisions_delete sid t p w = (None, w1)" and h1: "store_healthy (Suc 0) w1" and
    rows: "decisions w1 =
             filter (\<lambda>d. \<not> (td_session_id d = sid \<and> td_team_id d = t \<and> td_phase_id d = p))
               (decisions w)"
    by blast
  have r: "resetTeamDecisionInDb sid t p (st, w) =
           (None, fetchTeamDecisionsForSession sid
                    (st\<lparr>teamDecisions := removeDecisionLocal t p (teamDecisions st)\<rparr>, w1))"
    using assms(1,3,4) d by (simp add: resetTeamDecisionInDb_def)
  show "fst (resetTeamDecisionInDb sid t p (st, w)) = None" by (simp add: r)
  have f: "filter (\<lambda>d. td_session_id d = sid) (decisions w1) =
           filter (\<lambda>d. \<not> (td_team_id d = t \<and> td_phase_id d = p))
                (filter (\<lambda>d. td_session_id d = sid) (decisions w))"
    unfolding rows filter_filter by (rule filter_cong) auto
  have "teamDecisions (fst (fetchTeamDecisionsForSession sid (st', w1))) =
          fold file_decision (filter (\<lambda>d. td_session_id d = sid) (decisions w1)) Map.empty"
    for st'
    using assms(1,2) db_decisions_getBySession_healthy[OF h1, of sid]
    by (auto simp: fetchTeamDecisionsForSession_def split: prod.splits sum.splits)
  then show "teamDecisions (fst (snd (resetTeamDecisionInDb sid t p (st, w)))) =
           fold file_decision
             (filter (\<lambda>d. \<not> (td_team_id d = t \<and> td_phase_id d = p))
                (filter (\<lambda>d. td_session_id d = sid) (decisions w))) Map.empty"
    by (simp add: r f)
qed

lemma lookup2_after_filter:
  "lookup2 (fold file_decision (filter (\<lambda>d. \<not> (td_team_id d = t \<and> td_phase_id d = p)) rows) Map.empty) t' k =
     (if t' = t \<and> k = p then None else lookup2 (fold file_decision rows Map.empty) t' k)"
proof (cases "t' = t \<and> k = p")
  case True
  then have "find (\<lambda>d. td_team_id d = t' \<and> td_phase_id d = k)
               (filter (\<lambda>d. \<not> (td_team_id d = t \<and> td_phase_id d = p)) (rev rows)) = None"
    by (intro find_filter_none) auto
  with True show ?thesis
    unfolding lookup2_fold_file_decision rev_filter by (simp add: lookup2_def)
next
  case False
  then have "find (\<lambda>d. td_team_id d = t' \<and> td_phase_id d = k)
               (filter (\<lambda>d. \<not> (td_team_id d = t \<and> td_phase_id d = p)) (rev rows)) =
             find (\<lambda>d. td_team_id d = t' \<and> td_phase_id d = k) (rev rows)"
    by (intro find_filter_same) auto
  then show ?thesis
    unfolding lookup2_fold_file_decision rev_filter using False by auto
qed

lemma lookup2_removeDecisionLocal:
  "lookup2 (removeDecisionLocal t p m) t' k =
     (if t' = t \<and> k = p then None else lookup2 m t' k)"
proof (cases "t' = t")
  case False
  then show ?thesis by (simp add: lookup2_def removeDecisionLocal_other_team)
next
  case True
  show ?thesis
  proof (cases "k = p")
    case True
    with \<open>t' = t\<close> show ?thesis by (simp add: removeDecisionLocal_removed)
  next
    case False
    then have "p \<noteq> k" by simp
    from removeDecisionLocal_other_phase[OF this, of t m] \<open>t' = t\<close> False show ?thesis by simp
  qed
qed

lemma reset_is_local_removal:
  "fold file_decision (filter (\<lambda>d. \<not> (td_team_id d = t \<and> td_phase_id d = p)) rows) Map.empty =
   removeDecisionLocal t p (fold file_decision rows Map.empty)"
proof (rule nested_map_eqI)
  show "no_empty_entry
          (fold file_decision (filter (\<lambda>d. \<not> (td_team_id d = t \<and> td_phase_id d = p)) rows) Map.empty)"
    by (intro no_empty_entry_fold no_empty_entry_empty)
  show "no_empty_entry (removeDecisionLocal t p (fold file_decision rows Map.empty))"
    by (intro no_empty_entry_removeDecisionLocal no_empty_entry_fold no_empty_entry_empty)
  fix t' k
  show "lookup2
          (fold file_decision (filter (\<lambda>d. \<not> (td_team_id d = t \<and> td_phase_id d = p)) rows) Map.empty)
          t' k =
        lookup2 (removeDecisionLocal t p (fold file_decision rows Map.empty)) t' k"
    unfolding lookup2_after_filter lookup2_removeDecisionLocal by (rule refl)
qed

text \<open>
  C3, as stated, fails in two ways, both because \<open>resetTeamDecisionInDb\<close> ends with a
  reload that replaces the projection. A team has a decision under \<open>rd1-invest\<close> and an
  immediate purchase under \<open>rd1-invest-immediate\<close>. First, the delete goes through and the
  reload throws: \<open>fetchTeamDecisionsForSession\<close> catches the error and clears the
  projection, so the call returns normally and the record under \<open>rd1-invest-immediate\<close> is
  no longer in the projection. Second, every store call goes through, but the store no
  longer holds the immediate purchase that the projection still shows: the reload files the
  rows of the store, and the record under \<open>rd1-invest-immediate\<close> is no longer in the
  projection.
\<close>

theorem resetTeamDecisionInDb_reload_failure_counterexample:
  "lookup2 (teamDecisions demo_team_data) ''t1'' ''rd1-invest-immediate'' = Some demo_decision_immediate
   \<and> fst (resetTeamDecisionInDb ''s1'' ''t1'' ''rd1-invest'' (demo_team_data, demo_world_reload_fails)) = None
   \<and> lookup2 (teamDecisions (fst (snd (resetTeamDecisionInDb ''s1'' ''t1'' ''rd1-invest''
         (demo_team_data, demo_world_reload_fails))))) ''t1'' ''rd1-invest-immediate'' = None
   \<and> fst (resetTeamDecisionInDb ''s1'' ''t1'' ''rd1-invest'' (demo_team_data, demo_world_stale)) = None
   \<and> lookup2 (teamDecisions (fst (snd (resetTeamDecisionInDb ''s1'' ''t1'' ''rd1-invest''
         (demo_team_data, demo_world_stale))))) ''t1'' ''rd1-invest-immediate'' = None"
  by (simp add: resetTeamDecisionInDb_def db_decisions_delete_def next_fault_def
      fetchTeamDecisionsForSession_def db_decisions_getBySession_def lookup2_def
      demo_team_data_def demo_world_reload_fails_def demo_world_stale_def demo_world_def
      demo_decision_invest_def)

text \<open>
  C3, amended. For every team and every pair of distinct phase identifiers \<open>p\<close> and \<open>q\<close>:
  when \<open>resetTeamDecisionInDb\<close> is called with a session identifier other than the empty
  one and \<open>new\<close>, with a team and a phase identifier, and the store answers its two calls
  (the delete scoped by phase, then the reload), the call returns normally and removes only
  the record keyed (team, \<open>p\<close>). The projection afterwards is the rows the store held for
  the session, filed by team and phase, with only (team, \<open>p\<close>) removed: the record the
  store holds under (team, \<open>q\<close>) is in it unchanged, nothing is under (team, \<open>p\<close>), the
  entries of other teams are those of the store, and the entry of the team is pruned
  exactly when \<open>p\<close> was its only phase. So a record under (team, \<open>q\<close>) that the projection
  showed as the store holds it remains present and unchanged, and for a projection that
  showed the rows of the store the projection afterwards is the one before with only
  (team, \<open>p\<close>) removed.
\<close>

theorem resetTeamDecisionInDb_removes_only_its_phase:
  assumes "p \<noteq> q"
    and "sid \<noteq> []" and "sid \<noteq> ''new''" and "t \<noteq> []" and "p \<noteq> []"
    and "store_healthy 2 w"
  shows "fst (resetTeamDecisionInDb sid t p (st, w)) = None
       \<and> teamDecisions (fst (snd (resetTeamDecisionInDb sid t p (st, w)))) =
           removeDecisionLocal t p (stored_projection sid w)
       \<and> lookup2 (teamDecisions (fst (snd (resetTeamDecisionInDb sid t p (st, w))))) t q =
           lookup2 (stored_projection sid w) t q
       \<and> lookup2 (teamDecisions (fst (snd (resetTeamDecisionInDb sid t p (st, w))))) t p = None
       \<and> (\<forall>t'. t' \<noteq> t \<longrightarrow>
             teamDecisions (fst (snd (resetTeamDecisionInDb sid t p (st, w)))) t' =
               stored_projection sid w t')
       \<and> (\<forall>phases. stored_projection sid w t = Some phases \<longrightarrow>
             (teamDecisions (fst (snd (resetTeamDecisionInDb sid t p (st, w)))) t = None \<longleftrightarrow>
              dom phases = {p}))
       \<and> (lookup2 (teamDecisions st) t q = lookup2 (stored_projection sid w) t q \<longrightarrow>
            lookup2 (teamDecisions (fst (snd (resetTeamDecisionInDb sid t p (st, w))))) t q =
              lookup2 (teamDecisions st) t q)
       \<and> (teamDecisions st = stored_projection sid w \<longrightarrow>
            teamDecisions (fst (snd (resetTeamDecisionInDb sid t p (st, w)))) =
              removeDecisionLocal t p (teamDecisions st))"
proof -
  let ?final = "teamDecisions (fst (snd (resetTeamDecisionInDb sid t p (st, w))))"
  let ?stored = "stored_projection sid w"
  note h = resetTeamDecisionInDb_healthy[OF assms(2-6), of st]
  have eq: "?final = removeDecisionLocal t p ?stored"
    unfolding h(2) stored_projection_def by (rule reset_is_local_removal)
  have q: "lookup2 ?final t q = lookup2 ?stored t q"
    unfolding eq by (rule removeDecisionLocal_other_phase[OF assms(1)])
  have p: "lookup2 ?final t p = None"
    unfolding eq by (rule removeDecisionLocal_removed)
  have other: "\<forall>t'. t' \<noteq> t \<longrightarrow> ?final t' = ?stored t'"
    unfolding eq by (simp add: removeDecisionLocal_other_team)
  have prune: "\<forall>phases. ?stored t = Some phases \<longrightarrow> (?final t = None \<longleftrightarrow> dom phases = {p})"
    unfolding eq
    using removeDecisionLocal_pruned_only_when_empty[of ?stored t _ p]
      removeDecisionLocal_pruned_when_empty[of ?stored t _ p] by blast
  have shown: "lookup2 (teamDecisions st) t q = lookup2 ?stored t q \<longrightarrow>
               lookup2 ?final t q = lookup2 (teamDecisions st) t q"
    using q by simp
  have synced: "teamDecisions st = ?stored \<longrightarrow>
                ?final = removeDecisionLocal t p (teamDecisions st)"
    using eq by simp
  show ?thesis
    by (intro conjI h(1) eq q p other prune shown synced)
qed

theorem resetTeamDecisionInDb_removes_only_its_phase_witness:
  "store_healthy 2 demo_world_decisions
   \<and> teamDecisions demo_team_data = stored_projection ''s1'' demo_world_decisions
   \<and> fst (resetTeamDecisionInDb ''s1'' ''t1'' ''rd1-invest'' (demo_team_data, demo_world_decisions)) = None
   \<and> lookup2 (teamDecisions (fst (snd (resetTeamDecisionInDb ''s1'' ''t1'' ''rd1-invest''
         (demo_team_data, demo_world_decisions))))) ''t1'' ''rd1-invest-immediate'' =
       Some demo_decision_immediate
   \<and> lookup2 (teamDecisions (fst (snd (resetTeamDecisionInDb ''s1'' ''t1'' ''rd1-invest''
         (demo_team_data, demo_world_decisions))))) ''t1'' ''rd1-invest'' = None
   \<and> teamDecisions (fst (snd (resetTeamDecisionInDb ''s1'' ''t1'' ''rd1-invest''
         (demo_team_data, demo_world_decisions)))) =
       [''t1'' \<mapsto> [''rd1-invest-immediate'' \<mapsto> demo_decision_immediate]]"
proof -
  have neq: "''rd1-invest'' \<noteq> ''rd1-invest-immediate''" by simp
  have ids: "''s1'' \<noteq> []" "''s1'' \<noteq> ''new''" "''t1'' \<noteq> []" "''rd1-invest'' \<noteq> []" by simp_all
  have healthy: "store_healthy 2 demo_world_decisions"
    by (simp add: store_healthy_def demo_world_decisions_def demo_world_def)
  have sync: "teamDecisions demo_team_data = stored_projection ''s1'' demo_world_decisions"
    by (simp add: stored_projection_def demo_world_decisions_def demo_team_data_def
        file_decision_def demo_decision_invest_def demo_decision_immediate_def)
  have before: "lookup2 (teamDecisions demo_team_data) ''t1'' ''rd1-invest-immediate'' =
                Some demo_decision_immediate"
    by (simp add: demo_team_data_def lookup2_def)
  have removed: "removeDecisionLocal ''t1'' ''rd1-invest'' (teamDecisions demo_team_data) =
                 [''t1'' \<mapsto> [''rd1-invest-immediate'' \<mapsto> demo_decision_immediate]]"
    by (auto simp: removeDecisionLocal_def demo_team_data_def fun_upd_twist)
  note th = resetTeamDecisionInDb_removes_only_its_phase
              [OF neq ids healthy, of demo_team_data]
  from th healthy sync before removed show ?thesis by (simp add: lookup2_def)
qed

end
